theory Spec2Isabelle
  imports Complex_Main
begin

section \<open>Tempo planner: the atempo filter chain of \<open>adjustAudioSpeed\<close>\<close>

text \<open>
  \<open>adjustAudioSpeed\<close> builds the value of ffmpeg's \<open>-filter:a\<close> option as a comma-separated
  list of \<open>atempo=...\<close> filters. Three texts occur in the source: the literals
  \<open>"atempo=2.0"\<close> and \<open>"atempo=0.5"\<close>, and \<open>fmt.Sprintf("atempo=%.4f", x)\<close>. The chain is
  modelled as the list of these filters, in the order \<open>strings.Join\<close> writes them.

  The speed is a Go \<open>float64\<close>. It is modelled as a real number: the only arithmetic on it is
  division by \<open>2.0\<close> and by \<open>0.5\<close>, which binary floating point performs without rounding
  (the loops stop before the value can overflow or underflow), and the comparisons are
  against \<open>0.5\<close>, \<open>1.0\<close> and \<open>2.0\<close>, which are floating-point numbers themselves.
\<close>

datatype atempo =
    Atempo_2_0          \<comment> \<open>the literal \<open>"atempo=2.0"\<close>\<close>
  | Atempo_0_5          \<comment> \<open>the literal \<open>"atempo=0.5"\<close>\<close>
  | Atempo_fmt real     \<comment> \<open>\<open>fmt.Sprintf("atempo=%.4f", x)\<close>\<close>

text \<open>
  \<open>%.4f\<close> prints the decimal expansion of its argument correctly rounded to four places,
  ties to the even digit. \<open>fmt4 x\<close> is the number that text denotes.
\<close>

definition round_half_even :: "real \<Rightarrow> int" where
  "round_half_even x =
     (let f = \<lfloor>x\<rfloor>; d = x - of_int f
      in if d < 1/2 then f else if d > 1/2 then f + 1 else if even f then f else f + 1)"

definition fmt4 :: "real \<Rightarrow> real" where
  "fmt4 x = of_int (round_half_even (x * 10000)) / 10000"

text \<open>The multiplier ffmpeg reads from a filter's text.\<close>

fun atempo_value :: "atempo \<Rightarrow> real" where
  "atempo_value Atempo_2_0 = 2"
| "atempo_value Atempo_0_5 = 1/2"
| "atempo_value (Atempo_fmt x) = fmt4 x"

text \<open>
  The loop \<open>for remaining > 2.0 { filters = append(filters, "atempo=2.0"); remaining /= 2.0 }\<close>,
  returning the final \<open>remaining\<close> and \<open>filters\<close>.
\<close>

function chain_fast :: "real \<Rightarrow> atempo list \<Rightarrow> real \<times> atempo list" where
  "chain_fast remaining filters =
     (if remaining > 2 then chain_fast (remaining / 2) (filters @ [Atempo_2_0])
      else (remaining, filters))"
  by pat_completeness auto
termination
proof (relation "measure (\<lambda>(r, fs). nat \<lceil>r\<rceil>)")
  show "wf (measure (\<lambda>(r::real, fs::atempo list). nat \<lceil>r\<rceil>))" by simp
next
  fix remaining :: real and filters :: "atempo list"
  assume "2 < remaining"
  then have "remaining / 2 \<le> remaining - 1" by simp
  then have "\<lceil>remaining / 2\<rceil> \<le> \<lceil>remaining - 1\<rceil>" by (rule ceiling_mono)
  moreover have "0 < \<lceil>remaining\<rceil>" using \<open>2 < remaining\<close> by simp
  ultimately show "((remaining / 2, filters @ [Atempo_2_0]), (remaining, filters))
      \<in> measure (\<lambda>(r, fs). nat \<lceil>r\<rceil>)" by simp
qed

text \<open>
  The loop \<open>for remaining < 0.5 { filters = append(filters, "atempo=0.5"); remaining /= 0.5 }\<close>.
  It does not end when \<open>remaining \<le> 0\<close>, so it is a partial function: \<open>None\<close> is the
  loop that never returns.
\<close>

partial_function (option) chain_slow :: "real \<Rightarrow> atempo list \<Rightarrow> (real \<times> atempo list) option" where
  "chain_slow remaining filters =
     (if remaining < 1/2 then chain_slow (remaining / (1/2)) (filters @ [Atempo_0_5])
      else Some (remaining, filters))"

declare chain_slow.simps [code]

text \<open>The \<open>filterChain\<close> of \<open>adjustAudioSpeed\<close>, as the list that \<open>strings.Join\<close> receives.\<close>

definition filterChain :: "real \<Rightarrow> atempo list option" where
  "filterChain speed =
     (if speed \<ge> 1/2 \<and> speed \<le> 2 then Some [Atempo_fmt speed]
      else if speed > 2 then
        (case chain_fast speed [] of (remaining, filters) \<Rightarrow>
           Some (if remaining > 1 then filters @ [Atempo_fmt remaining] else filters))
      else
        (case chain_slow speed [] of None \<Rightarrow> None
         | Some (remaining, filters) \<Rightarrow>
           Some (if remaining < 1 then filters @ [Atempo_fmt remaining] else filters)))"

text \<open>The multiplier the planner computed for a filter, before it is printed.\<close>

fun atempo_arg :: "atempo \<Rightarrow> real" where
  "atempo_arg Atempo_2_0 = 2"
| "atempo_arg Atempo_0_5 = 1/2"
| "atempo_arg (Atempo_fmt x) = x"

subsection \<open>The construction as the specification words it\<close>

text \<open>
  For \<open>m > 2.0\<close>: emit stage \<open>2.0\<close> and divide the remaining multiplier by \<open>2.0\<close> until it
  is \<open>\<le> 2.0\<close>; append the remainder if it exceeds \<open>1.0\<close>.
\<close>

function spec_fast :: "real \<Rightarrow> real list" where
  "spec_fast r = (if r \<le> 2 then (if r > 1 then [r] else []) else 2 # spec_fast (r / 2))"
  by pat_completeness auto
termination
proof (relation "measure (\<lambda>r. nat \<lceil>r\<rceil>)")
  show "wf (measure (\<lambda>r::real. nat \<lceil>r\<rceil>))" by simp
next
  fix r :: real
  assume "\<not> r \<le> 2"
  then have "r / 2 \<le> r - 1" by simp
  then have "\<lceil>r / 2\<rceil> \<le> \<lceil>r - 1\<rceil>" by (rule ceiling_mono)
  moreover have "0 < \<lceil>r\<rceil>" using \<open>\<not> r \<le> 2\<close> by simp
  ultimately show "(r / 2, r) \<in> measure (\<lambda>r. nat \<lceil>r\<rceil>)" by simp
qed

text \<open>
  For \<open>m < 0.5\<close>: emit stage \<open>0.5\<close> and divide the remaining multiplier by \<open>0.5\<close> until it
  is \<open>\<ge> 0.5\<close>; append the remainder if it is below \<open>1.0\<close>.
\<close>

partial_function (option) spec_slow :: "real \<Rightarrow> real list option" where
  "spec_slow r =
     (if r \<ge> 1/2 then Some (if r < 1 then [r] else [])
      else Option.bind (spec_slow (r / (1/2))) (\<lambda>st. Some (1/2 # st)))"

declare spec_slow.simps [code]

definition spec_stages :: "real \<Rightarrow> real list option" where
  "spec_stages m =
     (if 1/2 \<le> m \<and> m \<le> 2 then Some [m]
      else if m > 2 then Some (spec_fast m)
      else spec_slow m)"

definition stages_in_range :: "atempo list \<Rightarrow> bool" where
  "stages_in_range fs = list_all (\<lambda>f. 1/2 \<le> atempo_value f \<and> atempo_value f \<le> 2) fs"

section \<open>Strings and paths\<close>

text \<open>\<open>strings.HasPrefix\<close>, \<open>strings.HasSuffix\<close> and \<open>strings.Contains\<close>.\<close>

definition HasPrefix :: "string \<Rightarrow> string \<Rightarrow> bool" where
  "HasPrefix s p = (take (length p) s = p)"

definition HasSuffix :: "string \<Rightarrow> string \<Rightarrow> bool" where
  "HasSuffix s x = (length x \<le> length s \<and> drop (length s - length x) s = x)"

fun Contains :: "string \<Rightarrow> string \<Rightarrow> bool" where
  "Contains [] sub = (sub = [])"
| "Contains (c # cs) sub = (HasPrefix (c # cs) sub \<or> Contains cs sub)"

text \<open>\<open>strings.ToLower\<close> on the ASCII letters, which is all a test for \<open>".mp3"\<close> can see.\<close>

definition lower_char :: "char \<Rightarrow> char" where
  "lower_char c =
     (let n = (of_char c :: nat)
      in if 65 \<le> n \<and> n \<le> 90 then char_of (n + 32) else c)"

definition ToLower :: "string \<Rightarrow> string" where
  "ToLower s = map lower_char s"

text \<open>\<open>strings.TrimSpace\<close>, for the ASCII white space.\<close>

definition is_space :: "char \<Rightarrow> bool" where
  "is_space c = ((of_char c :: nat) \<in> {9, 10, 11, 12, 13, 32})"

definition TrimSpace :: "string \<Rightarrow> string" where
  "TrimSpace s = rev (dropWhile is_space (rev (dropWhile is_space s)))"

text \<open>
  \<open>filepath.Join(dir, name)\<close> for a rooted directory \<open>dir\<close>: the two are joined with a
  separator and the result is cleaned (\<open>filepath.Clean\<close>): empty and \<open>.\<close> elements are
  dropped, \<open>..\<close> removes the element before it and is dropped at the root.
\<close>

fun split_slash :: "string \<Rightarrow> string list" where
  "split_slash [] = [[]]"
| "split_slash (c # cs) =
     (if c = CHR ''/'' then [] # split_slash cs
      else (case split_slash cs of [] \<Rightarrow> [[c]] | x # xs \<Rightarrow> (c # x) # xs))"

definition clean_element :: "string list \<Rightarrow> string \<Rightarrow> string list" where
  "clean_element kept e =
     (if e = [] \<or> e = ''.'' then kept
      else if e = ''..'' then butlast kept
      else kept @ [e])"

fun join_slash :: "string list \<Rightarrow> string" where
  "join_slash [] = []"
| "join_slash [x] = x"
| "join_slash (x # y # ys) = x @ ''/'' @ join_slash (y # ys)"

definition filepath_Join :: "string \<Rightarrow> string \<Rightarrow> string" where
  "filepath_Join dir name =
     ''/'' @ join_slash (foldl clean_element [] (split_slash (dir @ ''/'' @ name)))"

definition TEMP_DIR :: string where
  "TEMP_DIR = ''/temp''"

definition OUTPUT_DIR :: string where
  "OUTPUT_DIR = ''/output''"

section \<open>The operating system the program calls\<close>

text \<open>
  Files are a map from path to content; \<open>synced\<close> holds the paths whose content has been
  flushed to the device since it was last written. External processes are recorded when
  they start, and \<open>Process.Kill\<close> calls when they are made; a process is named by its
  position in \<open>started\<close>.

  What the environment decides (a tool's exit status, a system call that fails for a
  reason the file map does not show, such as a rename across devices) is an argument of
  the model: every function that calls out takes the outcome it will meet.
\<close>

datatype errno = EXDEV | ENOENT | EACCES | EIO | ENOSPC | EROFS

datatype go_error =
    LinkError errno       \<comment> \<open>\<open>*os.LinkError\<close> around a \<open>syscall.Errno\<close>\<close>
  | PathError errno       \<comment> \<open>\<open>*fs.PathError\<close> around a \<open>syscall.Errno\<close>\<close>
  | ContextCanceled       \<comment> \<open>\<open>context.Canceled\<close>\<close>
  | ToolError string      \<comment> \<open>an external tool's failure, by its text\<close>

datatype exec =
    Exec_ffmpeg string "atempo list" string   \<comment> \<open>input file, filter chain, output file\<close>
  | Exec_ytdlp_playlist string                \<comment> \<open>the playlist download of a URL\<close>
  | Exec_ytdlp_url string                     \<comment> \<open>the single download of a full URL\<close>
  | Exec_ytdlp_video string                   \<comment> \<open>\<open>downloadSingleVideo\<close> of a video id\<close>

record os_state =
  files :: "string \<rightharpoonup> string"
  synced :: "string set"
  started :: "exec list"
  killed :: "nat list"

definition os_Remove :: "go_error option \<Rightarrow> string \<Rightarrow> os_state \<Rightarrow> go_error option \<times> os_state" where
  "os_Remove fault path os =
     (case fault of
        Some e \<Rightarrow> (Some e, os)
      | None \<Rightarrow>
          if files os path = None then (Some (PathError ENOENT), os)
          else (None, os\<lparr>files := (files os)(path := None), synced := synced os - {path}\<rparr>))"

definition os_Rename ::
  "go_error option \<Rightarrow> string \<Rightarrow> string \<Rightarrow> os_state \<Rightarrow> go_error option \<times> os_state" where
  "os_Rename fault oldpath newpath os =
     (case fault of
        Some e \<Rightarrow> (Some e, os)
      | None \<Rightarrow>
          if files os oldpath = None then (Some (LinkError ENOENT), os)
          else if oldpath = newpath then (None, os)
          else (None, os\<lparr>files := (files os)(newpath := files os oldpath, oldpath := None),
                           synced := (if oldpath \<in> synced os then insert newpath (synced os)
                                      else synced os - {newpath}) - {oldpath}\<rparr>))"

definition os_Stat :: "go_error option \<Rightarrow> string \<Rightarrow> os_state \<Rightarrow> go_error option" where
  "os_Stat fault path os =
     (case fault of
        Some e \<Rightarrow> Some e
      | None \<Rightarrow> if files os path = None then Some (PathError ENOENT) else None)"

fun os_IsNotExist :: "go_error option \<Rightarrow> bool" where
  "os_IsNotExist (Some (PathError e)) = (e = ENOENT)"
| "os_IsNotExist (Some (LinkError e)) = (e = ENOENT)"
| "os_IsNotExist _ = False"

text \<open>
  \<open>exec.CommandContext(ctx, ...)\<close>: a command whose context is already done is not
  started; otherwise the process starts and gets the next process number.
\<close>

definition start_process :: "bool \<Rightarrow> exec \<Rightarrow> os_state \<Rightarrow> nat option \<times> os_state" where
  "start_process ctx_is_done e os =
     (if ctx_is_done then (None, os)
      else (Some (length (started os)), os\<lparr>started := started os @ [e]\<rparr>))"

definition Process_Kill :: "nat \<Rightarrow> os_state \<Rightarrow> os_state" where
  "Process_Kill pid os = os\<lparr>killed := killed os @ [pid]\<rparr>"

section \<open>The audio post-processor: \<open>adjustAudioSpeed\<close>\<close>

text \<open>
  What one run of ffmpeg does: its exit status, its combined output, and the content it
  left at its output path if it wrote there at all; and whether the two system calls that
  follow meet a failure of their own.
\<close>

record adjust_env =
  ffmpeg_exit :: "go_error option"
  ffmpeg_output :: string
  ffmpeg_wrote :: "string option"
  remove_fault :: "go_error option"
  rename_fault :: "go_error option"

datatype adjust_error =
    Ffmpeg_failed go_error string            \<comment> \<open>\<open>"ffmpeg failed: %v, output: %s"\<close>\<close>
  | Failed_to_remove_original go_error       \<comment> \<open>\<open>"failed to remove original file: %v"\<close>\<close>
  | Failed_to_rename_temp go_error           \<comment> \<open>\<open>"failed to rename temp file: %v"\<close>\<close>

definition run_ffmpeg ::
  "bool \<Rightarrow> adjust_env \<Rightarrow> exec \<Rightarrow> string \<Rightarrow> os_state \<Rightarrow> (go_error option \<times> string) \<times> os_state" where
  "run_ffmpeg ctx_is_done env e tempFile os =
     (case start_process ctx_is_done e os of
        (None, os1) \<Rightarrow> ((Some ContextCanceled, []), os1)
      | (Some pid, os1) \<Rightarrow>
          ((ffmpeg_exit env, ffmpeg_output env),
           (case ffmpeg_wrote env of
              None \<Rightarrow> os1
            | Some c \<Rightarrow> os1\<lparr>files := (files os1)(tempFile \<mapsto> c),
                            synced := synced os1 - {tempFile}\<rparr>)))"

text \<open>
  \<open>adjustAudioSpeed(ctx, inputFile, speed)\<close>. The result is \<open>None\<close> when building the
  filter chain never ends; otherwise the returned error (\<open>None\<close> for \<open>nil\<close>) and the state
  of the operating system afterwards.
\<close>

definition adjustAudioSpeed ::
  "bool \<Rightarrow> adjust_env \<Rightarrow> string \<Rightarrow> real \<Rightarrow> os_state \<Rightarrow> (adjust_error option \<times> os_state) option" where
  "adjustAudioSpeed ctx_is_done env inputFile speed os =
     (let tempFile = inputFile @ ''.tmp.mp3'' in
      case filterChain speed of
        None \<Rightarrow> None
      | Some chain \<Rightarrow>
          Some (case run_ffmpeg ctx_is_done env (Exec_ffmpeg inputFile chain tempFile) tempFile os of
            ((Some err, output), os1) \<Rightarrow> (Some (Ffmpeg_failed err output), os1)
          | ((None, output), os1) \<Rightarrow>
              (case os_Remove (remove_fault env) inputFile os1 of
                 (Some err, os2) \<Rightarrow> (Some (Failed_to_remove_original err), os2)
               | (None, os2) \<Rightarrow>
                   (case os_Rename (rename_fault env) tempFile inputFile os2 of
                      (Some err, os3) \<Rightarrow> (Some (Failed_to_rename_temp err), os3)
                    | (None, os3) \<Rightarrow> (None, os3)))))"

section \<open>Moving files: \<open>copyFile\<close> and the loop of \<open>moveFilesHandler\<close>\<close>

record copy_env =
  open_fault :: "go_error option"
  create_fault :: "go_error option"
  copy_fault :: "(go_error \<times> nat) option"   \<comment> \<open>\<open>io.Copy\<close> fails after so many bytes\<close>
  sync_fault :: "go_error option"

definition os_Open :: "go_error option \<Rightarrow> string \<Rightarrow> os_state \<Rightarrow> go_error option" where
  "os_Open fault path os =
     (case fault of
        Some e \<Rightarrow> Some e
      | None \<Rightarrow> if files os path = None then Some (PathError ENOENT) else None)"

definition os_Create :: "go_error option \<Rightarrow> string \<Rightarrow> os_state \<Rightarrow> go_error option \<times> os_state" where
  "os_Create fault path os =
     (case fault of
        Some e \<Rightarrow> (Some e, os)
      | None \<Rightarrow> (None, os\<lparr>files := (files os)(path \<mapsto> []), synced := synced os - {path}\<rparr>))"

definition write_file :: "string \<Rightarrow> string \<Rightarrow> os_state \<Rightarrow> os_state" where
  "write_file path content os =
     os\<lparr>files := (files os)(path \<mapsto> content), synced := synced os - {path}\<rparr>"

definition copyFile :: "copy_env \<Rightarrow> string \<Rightarrow> string \<Rightarrow> os_state \<Rightarrow> go_error option \<times> os_state" where
  "copyFile env src dst os =
     (case os_Open (open_fault env) src os of
        Some err \<Rightarrow> (Some err, os)
      | None \<Rightarrow>
          (case os_Create (create_fault env) dst os of
             (Some err, os1) \<Rightarrow> (Some err, os1)
           | (None, os1) \<Rightarrow>
               (let content = (case files os1 src of None \<Rightarrow> [] | Some c \<Rightarrow> c) in
                case copy_fault env of
                  Some (err, n) \<Rightarrow> (Some err, write_file dst (take n content) os1)
                | None \<Rightarrow>
                    (let os2 = write_file dst content os1 in
                     case sync_fault env of
                       Some err \<Rightarrow> (Some err, os2)
                     | None \<Rightarrow> (None, os2\<lparr>synced := insert dst (synced os2)\<rparr>)))))"

record move_env =
  stat_fault :: "go_error option"
  move_rename_fault :: "go_error option"
  copy_env :: copy_env
  move_remove_fault :: "go_error option"

datatype move_error =
    Invalid_path string                                   \<comment> \<open>\<open>"%s: Invalid path"\<close>\<close>
  | File_not_found_in_temp string                         \<comment> \<open>\<open>"%s: File not found in temp"\<close>\<close>
  | Move_failed string go_error                           \<comment> \<open>\<open>"%s: %v"\<close>\<close>
  | Copied_but_failed_to_remove_source string go_error    \<comment> \<open>\<open>"%s: copied but failed to remove source: %v"\<close>\<close>

record move_state =
  move_os :: os_state
  movedCount :: nat
  errors :: "move_error list"

text \<open>The body of the loop over \<open>req.Filenames\<close>, for one file name.\<close>

definition move_file :: "move_env \<Rightarrow> string \<Rightarrow> move_state \<Rightarrow> move_state" where
  "move_file env filename st =
     (let srcPath = filepath_Join TEMP_DIR filename;
          dstPath = filepath_Join OUTPUT_DIR filename;
          os = move_os st
      in
      if \<not> HasPrefix srcPath TEMP_DIR \<or> \<not> HasPrefix dstPath OUTPUT_DIR
      then st\<lparr>errors := errors st @ [Invalid_path filename]\<rparr>
      else if os_IsNotExist (os_Stat (stat_fault env) srcPath os)
      then st\<lparr>errors := errors st @ [File_not_found_in_temp filename]\<rparr>
      else
        (case os_Rename (move_rename_fault env) srcPath dstPath os of
           (None, os1) \<Rightarrow> st\<lparr>move_os := os1, movedCount := movedCount st + 1\<rparr>
         | (Some err, os1) \<Rightarrow>
             (case err of
                LinkError e \<Rightarrow>
                  if e = EXDEV then
                    (case copyFile (copy_env env) srcPath dstPath os1 of
                       (Some copyErr, os2) \<Rightarrow>
                         st\<lparr>move_os := os2, errors := errors st @ [Move_failed filename copyErr]\<rparr>
                     | (None, os2) \<Rightarrow>
                         (case os_Remove (move_remove_fault env) srcPath os2 of
                            (Some removeErr, os3) \<Rightarrow>
                              st\<lparr>move_os := os3,
                                 errors := errors st
                                   @ [Copied_but_failed_to_remove_source filename removeErr],
                                 movedCount := movedCount st + 1\<rparr>
                          | (None, os3) \<Rightarrow>
                              st\<lparr>move_os := os3, movedCount := movedCount st + 1\<rparr>))
                  else st\<lparr>move_os := os1, errors := errors st @ [Move_failed filename err]\<rparr>
              | _ \<Rightarrow> st\<lparr>move_os := os1, errors := errors st @ [Move_failed filename err]\<rparr>)))"

text \<open>
  The loop: the files in request order, each with the environment it meets.
\<close>

fun move_files :: "(string \<times> move_env) list \<Rightarrow> move_state \<Rightarrow> move_state" where
  "move_files [] st = st"
| "move_files ((filename, env) # rest) st = move_files rest (move_file env filename st)"

section \<open>The job registry and the HTTP handlers\<close>

text \<open>
  A job's \<open>Message\<close> is built with \<open>fmt.Sprintf\<close>; it is modelled as the format together
  with its arguments, one constructor for each format string of the source, and \<open>Text\<close>
  for the messages that are plain literals.
\<close>

datatype message =
    Text string
  | Playlist_download_error go_error "string option"
      \<comment> \<open>\<open>"Playlist download error: %v"\<close>, then a new line and at most 500 bytes of stderr\<close>
  | Applying_speed_to_files real nat       \<comment> \<open>\<open>"Applying %.1fx speed to %d files..."\<close>\<close>
  | Cancelled_after_processing nat nat     \<comment> \<open>\<open>"Cancelled after processing %d/%d files"\<close>\<close>
  | Processing_file nat nat string         \<comment> \<open>\<open>"Processing %d/%d: %s"\<close>\<close>
  | Downloaded_files_with_speed nat real   \<comment> \<open>\<open>"Downloaded %d files with %.1fx speed"\<close>\<close>
  | Downloaded_files nat                   \<comment> \<open>\<open>"Downloaded %d files"\<close>\<close>
  | Download_error go_error "string option"
      \<comment> \<open>\<open>"Error: %v"\<close>, then a new line and the trimmed stderr\<close>
  | Applying_speed_adjustment real         \<comment> \<open>\<open>"Applying %.1fx speed adjustment..."\<close>\<close>
  | Failed_to_adjust_speed adjust_error    \<comment> \<open>\<open>"Failed to adjust speed: %v"\<close>\<close>
  | Download_completed_with_speed real     \<comment> \<open>\<open>"Download completed with %.1fx speed"\<close>\<close>

text \<open>
  \<open>*exec.Cmd\<close>, as far as the program looks at it: \<open>Process\<close> is \<open>nil\<close> until the command
  has started.
\<close>

record Cmd =
  Process :: "nat option"

text \<open>
  \<open>DownloadStatus\<close>. The \<open>cancel\<close> function of a job cancels one context; contexts are
  numbered in the order \<open>context.WithCancel\<close> made them, and \<open>cancel\<close> holds the number.
\<close>

record DownloadStatus =
  ID :: string
  Status :: string
  Message :: message
  Progress :: string
  URL :: string
  Speed :: real
  CreatedAt :: nat
  cancel :: "nat option"
  cmd :: "Cmd option"

text \<open>
  The state all goroutines share: the \<open>downloads\<close> map, the contexts (\<open>True\<close> once
  cancelled), the operating system, and the one console line of \<open>downloadTask\<close> that
  carries a count the job does not: \<open>"[INFO] Applied speed adjustment to %d/%d files"\<close>,
  kept as the pair of its arguments.
\<close>

record world =
  downloads :: "string \<rightharpoonup> DownloadStatus"
  contexts :: "bool list"
  os :: os_state
  console :: "(nat \<times> nat) list"

definition ctx_Done :: "world \<Rightarrow> nat \<Rightarrow> bool" where
  "ctx_Done w c = (c < length (contexts w) \<and> contexts w ! c)"

definition ctx_cancel :: "nat \<Rightarrow> world \<Rightarrow> world" where
  "ctx_cancel c w = w\<lparr>contexts := (contexts w)[c := True]\<rparr>"

datatype response =
    Bad_request string
  | Not_found string
  | Ok_download_id string
  | Ok_job_cancelled
  | Ok_moved nat "move_error list"

text \<open>The arguments of \<open>go downloadTask(ctx, url, speed, downloadID)\<close>.\<close>

record task_args =
  ctx :: nat
  url :: string
  speed :: real
  downloadID :: string

text \<open>
  The body of a \<open>POST /download\<close>: not JSON of the expected shape, or an object whose
  \<open>url\<close> and \<open>speed\<close> fields may each be missing. A missing field leaves Go's zero value
  in the request struct.
\<close>

datatype download_request =
    Invalid_json
  | Json "string option" "real option"

text \<open>
  \<open>downloadHandler\<close>. \<open>uuid\<close> is what \<open>uuid.New().String()\<close> returns and \<open>now\<close> what
  \<open>time.Now()\<close> returns. The third component is the goroutine the handler starts.
\<close>

definition downloadHandler ::
  "download_request \<Rightarrow> string \<Rightarrow> nat \<Rightarrow> world \<Rightarrow> response \<times> world \<times> task_args option" where
  "downloadHandler body uuid now w =
     (case body of
        Invalid_json \<Rightarrow> (Bad_request ''Invalid request'', w, None)
      | Json url_field speed_field \<Rightarrow>
          (let req_URL = (case url_field of None \<Rightarrow> [] | Some u \<Rightarrow> u);
               req_Speed = (case speed_field of None \<Rightarrow> 0 | Some v \<Rightarrow> v)
           in
           if req_URL = [] then (Bad_request ''No URL provided'', w, None)
           else
             (let req_Speed = (if req_Speed = 0 then 1 else req_Speed);
                  downloadID = uuid;
                  c = length (contexts w);
                  w1 = w\<lparr>contexts := contexts w @ [False]\<rparr>;
                  w2 = w1\<lparr>downloads := (downloads w1)(downloadID \<mapsto>
                          \<lparr>ID = downloadID, Status = ''queued'',
                           Message = Text ''Starting download...'', Progress = ''0%'',
                           URL = req_URL, Speed = req_Speed, CreatedAt = now,
                           cancel = Some c, cmd = None\<rparr>)\<rparr>
              in (Ok_download_id downloadID, w2,
                  Some \<lparr>ctx = c, url = req_URL, speed = req_Speed, downloadID = downloadID\<rparr>))))"

text \<open>\<open>cancelJobHandler\<close>, the whole of it under \<open>mu.Lock()\<close>.\<close>

definition cancelJobHandler :: "string \<Rightarrow> world \<Rightarrow> response \<times> world" where
  "cancelJobHandler jobID w =
     (case downloads w jobID of
        None \<Rightarrow> (Not_found ''Job not found'', w)
      | Some job \<Rightarrow>
          if Status job \<noteq> ''queued'' \<and> Status job \<noteq> ''downloading''
             \<and> Status job \<noteq> ''processing''
          then (Bad_request ''Job cannot be cancelled'', w)
          else
            (let w1 = (case cancel job of None \<Rightarrow> w | Some c \<Rightarrow> ctx_cancel c w);
                 w2 = (case cmd job of
                         None \<Rightarrow> w1
                       | Some command \<Rightarrow>
                           (case Process command of
                              None \<Rightarrow> w1
                            | Some pid \<Rightarrow> w1\<lparr>os := Process_Kill pid (os w1)\<rparr>))
             in (Ok_job_cancelled,
                 w2\<lparr>downloads := (downloads w2)(jobID \<mapsto>
                       job\<lparr>Status := ''cancelled'', Message := Text ''Job cancelled by user''\<rparr>)\<rparr>)))"

text \<open>
  \<open>moveFilesHandler\<close>: the request's file names, each paired with the environment its
  system calls meet.
\<close>

datatype move_request =
    Invalid_move_json
  | Filenames "(string \<times> move_env) list"

definition moveFilesHandler :: "move_request \<Rightarrow> world \<Rightarrow> response \<times> world" where
  "moveFilesHandler body w =
     (case body of
        Invalid_move_json \<Rightarrow> (Bad_request ''Invalid request'', w)
      | Filenames names \<Rightarrow>
          if names = [] then (Bad_request ''No files specified'', w)
          else
            (let st = move_files names \<lparr>move_os = os w, movedCount = 0, errors = []\<rparr>
             in (Ok_moved (movedCount st) (errors st), w\<lparr>os := move_os st\<rparr>)))"

section \<open>The task executor: \<open>downloadTask\<close>\<close>

text \<open>The playlist test on the URL, as \<open>downloadTask\<close> computes it.\<close>

definition isPlaylist :: "string \<Rightarrow> bool" where
  "isPlaylist u =
     (Contains u ''list='' \<or> Contains u ''/playlist'' \<or> Contains u ''playlist?list=''
      \<or> HasPrefix u ''https://www.youtube.com/playlist''
      \<or> HasPrefix u ''http://www.youtube.com/playlist''
      \<or> HasPrefix u ''https://youtube.com/playlist''
      \<or> HasPrefix u ''http://youtube.com/playlist'')"

text \<open>
  \<open>getMP3Files\<close>, from the entries \<open>os.ReadDir\<close> returns (name and \<open>IsDir\<close>; no entries when
  \<open>ReadDir\<close> fails). The Go function returns a map used as a set; the list stands for it, and
  its order for the order in which \<open>range\<close> happens to visit the map.
\<close>

definition getMP3Files :: "(string \<times> bool) list \<Rightarrow> string list" where
  "getMP3Files entries =
     remdups (map fst (filter (\<lambda>(name, is_dir). \<not> is_dir \<and> HasSuffix (ToLower name) ''.mp3'')
                         entries))"

text \<open>
  The scan for the most recently modified file. \<open>mtime\<close> is \<open>os.Stat(path).ModTime()\<close>,
  \<open>None\<close> when \<open>Stat\<close> fails; times are counted from Go's zero time.
\<close>

fun newest_scan :: "(string \<Rightarrow> nat option) \<Rightarrow> string list \<Rightarrow> string \<times> nat \<Rightarrow> string \<times> nat" where
  "newest_scan mtime [] acc = acc"
| "newest_scan mtime (f # fs) (newestFile, newestTime) =
     (let fullPath = filepath_Join TEMP_DIR f in
      case mtime fullPath of
        None \<Rightarrow> newest_scan mtime fs (newestFile, newestTime)
      | Some t \<Rightarrow>
          if t > newestTime then newest_scan mtime fs (fullPath, t)
          else newest_scan mtime fs (newestFile, newestTime))"

text \<open>
  What the environment gives one step of the task: the directory listing, the
  modification times, how the external process being awaited ends when nobody kills it,
  what it wrote to stderr and which files it has written by then, what
  \<open>downloadSingleVideo\<close> returns when its context is live, and the environment of
  \<open>adjustAudioSpeed\<close>. A step reads the fields it needs.
\<close>

record task_env =
  dir_entries :: "(string \<times> bool) list"
  mtime :: "string \<Rightarrow> nat option"
  proc_exit :: "go_error option"
  proc_stderr :: string
  proc_wrote :: "(string \<times> string) list"
  single_result :: "go_error + string"
  adjust_env :: adjust_env

text \<open>
  Where the goroutine stands, with the local variables that are live there. Two steps
  are separated wherever another goroutine can run between them and see or change what
  they share: at every \<open>mu.Lock()\<close> and around every external call. A test of
  \<open>ctx.Done()\<close> and the locked write it leads to are one step: the only other writer is
  \<open>cancelJobHandler\<close>, which runs under the same lock and cannot undo a cancellation.
  A call of \<open>adjustAudioSpeed\<close> or of \<open>downloadSingleVideo\<close> is one step as well: neither
  touches the job, and a cancellation that arrives while their process runs either kills
  it, which is the call failing on a context cancelled just before, or comes too late,
  which is the call ending before the request.
\<close>

datatype pc =
    At_start                                   \<comment> \<open>the \<open>select\<close> on entry\<close>
  | At_set_downloading                         \<comment> \<open>\<open>Status = "downloading"\<close>\<close>
  | Pl_message                                 \<comment> \<open>\<open>"Downloading playlist..."\<close>\<close>
  | Pl_store_cmd                               \<comment> \<open>\<open>downloads[downloadID].cmd = cmd\<close>\<close>
  | Pl_run                                     \<comment> \<open>\<open>filesBefore\<close>, then \<open>cmd.Run()\<close> starts\<close>
  | Pl_run_wait "string list" nat              \<comment> \<open>\<open>cmd.Run()\<close> waits; \<open>filesBefore\<close>, process\<close>
  | Pl_run_failed go_error string              \<comment> \<open>\<open>err != nil\<close>: \<open>err\<close>, stderr\<close>
  | Pl_begin_processing "string list"          \<comment> \<open>\<open>Status = "processing"\<close>; \<open>newFiles\<close>\<close>
  | Pl_loop_check "string list" nat nat        \<comment> \<open>loop head: \<open>newFiles\<close>, \<open>i\<close>, \<open>successCount\<close>\<close>
  | Pl_loop_message "string list" nat nat      \<comment> \<open>\<open>"Processing %d/%d: %s"\<close>\<close>
  | Pl_loop_adjust "string list" nat nat       \<comment> \<open>\<open>adjustAudioSpeed\<close> on file \<open>i\<close>\<close>
  | Pl_complete "string list"                  \<comment> \<open>\<open>Status = "completed"\<close>\<close>
  | Sv_message                                 \<comment> \<open>\<open>"Downloading video..."\<close>\<close>
  | Sv_download                                \<comment> \<open>\<open>downloadSingleVideo(ctx, "", TEMP_DIR)\<close>\<close>
  | Sv_store_cmd                               \<comment> \<open>the retry: \<open>downloads[downloadID].cmd = cmd\<close>\<close>
  | Sv_run                                     \<comment> \<open>the retry: \<open>cmd.Run()\<close> starts\<close>
  | Sv_run_wait nat                            \<comment> \<open>the retry: \<open>cmd.Run()\<close> waits\<close>
  | Sv_run_failed go_error string              \<comment> \<open>the retry failed: \<open>err\<close>, stderr\<close>
  | Sv_no_file                                 \<comment> \<open>\<open>"No MP3 file was created"\<close>\<close>
  | Sv_begin_processing string                 \<comment> \<open>\<open>Status = "processing"\<close>; \<open>filePath\<close>\<close>
  | Sv_adjust string                           \<comment> \<open>\<open>adjustAudioSpeed(ctx, filePath, speed)\<close>\<close>
  | Sv_adjust_failed adjust_error              \<comment> \<open>\<open>"Failed to adjust speed: %v"\<close>\<close>
  | Sv_complete                                \<comment> \<open>\<open>Status = "completed"\<close>\<close>
  | Finished                                   \<comment> \<open>the function has returned\<close>
  | Panicked                                   \<comment> \<open>a run-time panic\<close>

text \<open>
  The two ways the task writes to its job: \<open>downloads[downloadID].f = v\<close>, which panics
  on a missing entry (a nil pointer), and \<open>if job, exists := downloads[downloadID]; exists\<close>.
\<close>

definition job_update ::
  "string \<Rightarrow> (DownloadStatus \<Rightarrow> DownloadStatus) \<Rightarrow> world \<Rightarrow> world option" where
  "job_update jobID f w =
     (case downloads w jobID of
        None \<Rightarrow> None
      | Some job \<Rightarrow> Some (w\<lparr>downloads := (downloads w)(jobID \<mapsto> f job)\<rparr>))"

definition job_update_if_exists ::
  "string \<Rightarrow> (DownloadStatus \<Rightarrow> DownloadStatus) \<Rightarrow> world \<Rightarrow> world" where
  "job_update_if_exists jobID f w =
     (case downloads w jobID of
        None \<Rightarrow> w
      | Some job \<Rightarrow> w\<lparr>downloads := (downloads w)(jobID \<mapsto> f job)\<rparr>)"

definition locked_update ::
  "string \<Rightarrow> (DownloadStatus \<Rightarrow> DownloadStatus) \<Rightarrow> pc \<Rightarrow> world \<Rightarrow> world \<times> pc" where
  "locked_update jobID f next w =
     (case job_update jobID f w of None \<Rightarrow> (w, Panicked) | Some w1 \<Rightarrow> (w1, next))"

text \<open>
  \<open>cmd.Run()\<close> in two halves. Starting fails at once when the context is done; otherwise
  the process starts and \<open>cmd.Process\<close>, which the job's \<open>cmd\<close> pointer shares, is set.
  Waiting returns an error when the context was cancelled or the process killed in the
  meantime, and the process's own exit status otherwise; the files the process wrote are
  there when it has ended.
\<close>

definition cmd_Start :: "task_args \<Rightarrow> exec \<Rightarrow> world \<Rightarrow> nat option \<times> world" where
  "cmd_Start a ex w =
     (case start_process (ctx_Done w (ctx a)) ex (os w) of
        (None, os1) \<Rightarrow> (None, w)
      | (Some pid, os1) \<Rightarrow>
          (Some pid,
           job_update_if_exists (downloadID a) (\<lambda>job. job\<lparr>cmd := Some \<lparr>Process = Some pid\<rparr>\<rparr>)
             (w\<lparr>os := os1\<rparr>)))"

fun tool_wrote :: "(string \<times> string) list \<Rightarrow> os_state \<Rightarrow> os_state" where
  "tool_wrote [] z = z"
| "tool_wrote ((path, content) # rest) z = tool_wrote rest (write_file path content z)"

definition cmd_Wait :: "task_args \<Rightarrow> task_env \<Rightarrow> nat \<Rightarrow> world \<Rightarrow> go_error option \<times> world" where
  "cmd_Wait a e pid w =
     (if ctx_Done w (ctx a) then Some ContextCanceled
      else if pid \<in> set (killed (os w)) then Some (ToolError ''signal: killed'')
      else proc_exit e,
      w\<lparr>os := tool_wrote (proc_wrote e) (os w)\<rparr>)"

text \<open>
  The call \<open>downloadSingleVideo(ctx, "", TEMP_DIR)\<close>, whose yt-dlp runs under the task's
  context: with the context done nothing is started and the call fails; otherwise the
  process starts and the call returns what the environment says.
\<close>

definition downloadSingleVideo :: "task_args \<Rightarrow> task_env \<Rightarrow> world \<Rightarrow> (go_error + string) \<times> world" where
  "downloadSingleVideo a e w =
     (case start_process (ctx_Done w (ctx a)) (Exec_ytdlp_video []) (os w) of
        (None, os1) \<Rightarrow> (Inl ContextCanceled, w)
      | (Some pid, os1) \<Rightarrow> (single_result e, w\<lparr>os := tool_wrote (proc_wrote e) os1\<rparr>))"

definition after_download :: "task_args \<Rightarrow> string \<Rightarrow> pc" where
  "after_download a filePath = (if speed a \<noteq> 1 then Sv_begin_processing filePath else Sv_complete)"

fun task_step :: "task_args \<Rightarrow> task_env \<Rightarrow> world \<Rightarrow> pc \<Rightarrow> world \<times> pc" where
  "task_step a e w At_start =
     (if ctx_Done w (ctx a)
      then (job_update_if_exists (downloadID a)
              (\<lambda>job. job\<lparr>Status := ''cancelled'',
                         Message := Text ''Job cancelled before starting''\<rparr>) w,
            Finished)
      else (w, At_set_downloading))"
| "task_step a e w At_set_downloading =
     locked_update (downloadID a)
       (\<lambda>job. job\<lparr>Status := ''downloading'', Message := Text ''Starting download...''\<rparr>)
       (if isPlaylist (url a) then Pl_message else Sv_message) w"
| "task_step a e w Pl_message =
     locked_update (downloadID a)
       (\<lambda>job. job\<lparr>Message := Text ''Downloading playlist...''\<rparr>) Pl_store_cmd w"
| "task_step a e w Pl_store_cmd =
     locked_update (downloadID a) (\<lambda>job. job\<lparr>cmd := Some \<lparr>Process = None\<rparr>\<rparr>) Pl_run w"
| "task_step a e w Pl_run =
     (let filesBefore = getMP3Files (dir_entries e) in
      case cmd_Start a (Exec_ytdlp_playlist (url a)) w of
        (None, w1) \<Rightarrow> (w1, Pl_run_failed ContextCanceled [])
      | (Some pid, w1) \<Rightarrow> (w1, Pl_run_wait filesBefore pid))"
| "task_step a e w (Pl_run_wait filesBefore pid) =
     (case cmd_Wait a e pid w of
        (Some err, w1) \<Rightarrow> (w1, Pl_run_failed err (proc_stderr e))
      | (None, w1) \<Rightarrow>
          (let filesAfter = getMP3Files (dir_entries e);
               newFiles = filter (\<lambda>f. f \<notin> set filesBefore) filesAfter
           in (w1, if speed a \<noteq> 1 \<and> length newFiles > 0 then Pl_begin_processing newFiles
                   else Pl_complete newFiles)))"
| "task_step a e w (Pl_run_failed err stderr) =
     (job_update_if_exists (downloadID a)
        (\<lambda>job. if ctx_Done w (ctx a)
                then job\<lparr>Status := ''cancelled'', Message := Text ''Download cancelled''\<rparr>
                else job\<lparr>Status := ''error'',
                         Message := Playlist_download_error err
                           (if length stderr > 0 then Some (take 500 stderr) else None)\<rparr>) w,
      Finished)"
| "task_step a e w (Pl_begin_processing newFiles) =
     locked_update (downloadID a)
       (\<lambda>job. job\<lparr>Status := ''processing'',
                  Message := Applying_speed_to_files (speed a) (length newFiles)\<rparr>)
       (Pl_loop_check newFiles 0 0) w"
| "task_step a e w (Pl_loop_check newFiles i successCount) =
     (if i < length newFiles then
        (if ctx_Done w (ctx a)
         then (job_update_if_exists (downloadID a)
                 (\<lambda>job. job\<lparr>Status := ''cancelled'',
                            Message := Cancelled_after_processing i (length newFiles)\<rparr>) w,
               Finished)
         else (w, Pl_loop_message newFiles i successCount))
      else (w\<lparr>console := console w @ [(successCount, length newFiles)]\<rparr>,
            Pl_complete newFiles))"
| "task_step a e w (Pl_loop_message newFiles i successCount) =
     (if i < length newFiles then
        locked_update (downloadID a)
          (\<lambda>job. job\<lparr>Message := Processing_file (i + 1) (length newFiles) (newFiles ! i)\<rparr>)
          (Pl_loop_adjust newFiles i successCount) w
      else (w, Panicked))"
| "task_step a e w (Pl_loop_adjust newFiles i successCount) =
     (if i < length newFiles then
        (let filePath = filepath_Join TEMP_DIR (newFiles ! i) in
         case adjustAudioSpeed (ctx_Done w (ctx a)) (adjust_env e) filePath (speed a) (os w) of
           None \<Rightarrow> (w, Pl_loop_adjust newFiles i successCount)
         | Some (Some err, os1) \<Rightarrow> (w\<lparr>os := os1\<rparr>, Pl_loop_check newFiles (i + 1) successCount)
         | Some (None, os1) \<Rightarrow> (w\<lparr>os := os1\<rparr>, Pl_loop_check newFiles (i + 1) (successCount + 1)))
      else (w, Panicked))"
| "task_step a e w (Pl_complete newFiles) =
     (job_update_if_exists (downloadID a)
        (\<lambda>job. job\<lparr>Status := ''completed'',
                   Message := (if speed a \<noteq> 1
                               then Downloaded_files_with_speed (length newFiles) (speed a)
                               else Downloaded_files (length newFiles))\<rparr>) w,
      Finished)"
| "task_step a e w Sv_message =
     locked_update (downloadID a)
       (\<lambda>job. job\<lparr>Message := Text ''Downloading video...''\<rparr>) Sv_download w"
| "task_step a e w Sv_download =
     (case downloadSingleVideo a e w of
        (Inl err, w1) \<Rightarrow> (w1, Sv_store_cmd)
      | (Inr filePath, w1) \<Rightarrow> (w1, after_download a filePath))"
| "task_step a e w Sv_store_cmd =
     locked_update (downloadID a) (\<lambda>job. job\<lparr>cmd := Some \<lparr>Process = None\<rparr>\<rparr>) Sv_run w"
| "task_step a e w Sv_run =
     (case cmd_Start a (Exec_ytdlp_url (url a)) w of
        (None, w1) \<Rightarrow> (w1, Sv_run_failed ContextCanceled [])
      | (Some pid, w1) \<Rightarrow> (w1, Sv_run_wait pid))"
| "task_step a e w (Sv_run_wait pid) =
     (case cmd_Wait a e pid w of
        (Some err, w1) \<Rightarrow> (w1, Sv_run_failed err (proc_stderr e))
      | (None, w1) \<Rightarrow>
          (let files = getMP3Files (dir_entries e) in
           if length files = 0 then (w1, Sv_no_file)
           else (w1, after_download a (fst (newest_scan (mtime e) files ([], 0))))))"
| "task_step a e w (Sv_run_failed err stderr) =
     (job_update_if_exists (downloadID a)
        (\<lambda>job. if ctx_Done w (ctx a)
                then job\<lparr>Status := ''cancelled'', Message := Text ''Download cancelled''\<rparr>
                else job\<lparr>Status := ''error'',
                         Message := Download_error err
                           (if length stderr > 0 then Some (TrimSpace stderr) else None)\<rparr>) w,
      Finished)"
| "task_step a e w Sv_no_file =
     (job_update_if_exists (downloadID a)
        (\<lambda>job. job\<lparr>Status := ''error'', Message := Text ''No MP3 file was created''\<rparr>) w,
      Finished)"
| "task_step a e w (Sv_begin_processing filePath) =
     locked_update (downloadID a)
       (\<lambda>job. job\<lparr>Status := ''processing'', Message := Applying_speed_adjustment (speed a)\<rparr>)
       (Sv_adjust filePath) w"
| "task_step a e w (Sv_adjust filePath) =
     (case adjustAudioSpeed (ctx_Done w (ctx a)) (adjust_env e) filePath (speed a) (os w) of
        None \<Rightarrow> (w, Sv_adjust filePath)
      | Some (Some err, os1) \<Rightarrow> (w\<lparr>os := os1\<rparr>, Sv_adjust_failed err)
      | Some (None, os1) \<Rightarrow> (w\<lparr>os := os1\<rparr>, Sv_complete))"
| "task_step a e w (Sv_adjust_failed err) =
     (job_update_if_exists (downloadID a)
        (\<lambda>job. job\<lparr>Status := ''error'', Message := Failed_to_adjust_speed err\<rparr>) w,
      Finished)"
| "task_step a e w Sv_complete =
     (job_update_if_exists (downloadID a)
        (\<lambda>job. job\<lparr>Status := ''completed'',
                   Message := (if speed a \<noteq> 1 then Download_completed_with_speed (speed a)
                               else Text ''Download completed'')\<rparr>) w,
      Finished)"
| "task_step a e w Finished = (w, Finished)"
| "task_step a e w Panicked = (w, Panicked)"

section \<open>Runs: the task interleaved with cancellation requests\<close>

text \<open>
  An event is either the task taking its next step, in the environment it meets there, or
  a \<open>DELETE /jobs/:id\<close> request served by \<open>cancelJobHandler\<close>. A run is a list of events;
  every interleaving of the task with cancellation requests is one.
\<close>

datatype event =
    Task task_env
  | Cancel string

fun step :: "task_args \<Rightarrow> event \<Rightarrow> world \<times> pc \<Rightarrow> world \<times> pc" where
  "step a (Task e) (w, p) = task_step a e w p"
| "step a (Cancel jobID) (w, p) = (snd (cancelJobHandler jobID w), p)"

fun run :: "task_args \<Rightarrow> event list \<Rightarrow> world \<times> pc \<Rightarrow> world \<times> pc" where
  "run a [] s = s"
| "run a (ev # evs) s = run a evs (step a ev s)"

text \<open>The states a run passes through, the first one included.\<close>

fun states :: "task_args \<Rightarrow> event list \<Rightarrow> world \<times> pc \<Rightarrow> (world \<times> pc) list" where
  "states a [] s = [s]"
| "states a (ev # evs) s = s # states a evs (step a ev s)"

text \<open>The status of a job in a state of the run; the empty string when the job is missing.\<close>

definition status_of :: "string \<Rightarrow> world \<times> pc \<Rightarrow> string" where
  "status_of jobID s = (case downloads (fst s) jobID of None \<Rightarrow> [] | Some job \<Rightarrow> Status job)"


text \<open>
  The state a submission leaves behind: the world after \<open>downloadHandler\<close>, with the
  goroutine it started about to run.
\<close>

definition submitted :: "world \<Rightarrow> world \<times> pc" where
  "submitted w = (w, At_start)"

definition empty_os :: os_state where
  "empty_os = \<lparr>files = Map.empty, synced = {}, started = [], killed = []\<rparr>"

definition empty_world :: world where
  "empty_world = \<lparr>downloads = Map.empty, contexts = [], os = empty_os, console = []\<rparr>"

definition calm_adjust :: adjust_env where
  "calm_adjust = \<lparr>ffmpeg_exit = None, ffmpeg_output = [], ffmpeg_wrote = Some ''faster'',
                  remove_fault = None, rename_fault = None\<rparr>"

definition calm :: task_env where
  "calm = \<lparr>dir_entries = [], mtime = (\<lambda>p. None), proc_exit = None, proc_stderr = [],
           proc_wrote = [], single_result = Inl (ToolError ''exit status 1''), adjust_env = calm_adjust\<rparr>"

section \<open>Notions the claims are stated with\<close>

text \<open>The statuses in which \<open>cancelJobHandler\<close> accepts a request.\<close>

definition active :: "string \<Rightarrow> bool" where
  "active st = (st = ''queued'' \<or> st = ''downloading'' \<or> st = ''processing'')"

definition terminal :: "string \<Rightarrow> bool" where
  "terminal st = (st = ''completed'' \<or> st = ''error'' \<or> st = ''cancelled'')"

text \<open>The points of the task whose step is a call of \<open>adjustAudioSpeed\<close>.\<close>

fun calls_adjustAudioSpeed :: "pc \<Rightarrow> bool" where
  "calls_adjustAudioSpeed (Pl_loop_adjust newFiles i successCount) = True"
| "calls_adjustAudioSpeed (Sv_adjust filePath) = True"
| "calls_adjustAudioSpeed _ = False"

text \<open>The points of the task inside one of the two \<open>if speed != 1.0\<close> blocks.\<close>

fun in_processing :: "pc \<Rightarrow> bool" where
  "in_processing (Pl_begin_processing newFiles) = True"
| "in_processing (Pl_loop_check newFiles i successCount) = True"
| "in_processing (Pl_loop_message newFiles i successCount) = True"
| "in_processing (Pl_loop_adjust newFiles i successCount) = True"
| "in_processing (Sv_begin_processing filePath) = True"
| "in_processing (Sv_adjust filePath) = True"
| "in_processing (Sv_adjust_failed err) = True"
| "in_processing _ = False"

fun is_ffmpeg :: "exec \<Rightarrow> bool" where
  "is_ffmpeg (Exec_ffmpeg inputFile chain tempFile) = True"
| "is_ffmpeg _ = False"

definition ffmpeg_runs :: "world \<times> pc \<Rightarrow> exec list" where
  "ffmpeg_runs s = filter is_ffmpeg (started (os (fst s)))"

definition untransformed :: "string \<Rightarrow> exec list \<Rightarrow> world \<times> pc \<Rightarrow> bool" where
  "untransformed jobID F s =
     (\<not> in_processing (snd s) \<and> status_of jobID s \<noteq> ''processing'' \<and> ffmpeg_runs s = F)"

section \<open>Concrete jobs and environments\<close>

text \<open>
  The world and the goroutine that \<open>downloadHandler\<close> leaves when the first request of a
  fresh server asks for a single video at speed 1.5, for a playlist at speed 1.5, and for
  a single video without a speed.
\<close>

definition new_job :: "string \<Rightarrow> real \<Rightarrow> DownloadStatus" where
  "new_job u sp =
     \<lparr>ID = ''job-1'', Status = ''queued'', Message = Text ''Starting download...'',
      Progress = ''0%'', URL = u, Speed = sp, CreatedAt = 7, cancel = Some 0, cmd = None\<rparr>"

definition new_world :: "string \<Rightarrow> real \<Rightarrow> world" where
  "new_world u sp =
     \<lparr>downloads = [''job-1'' \<mapsto> new_job u sp], contexts = [False], os = empty_os,
      console = []\<rparr>"

definition new_task :: "string \<Rightarrow> real \<Rightarrow> task_args" where
  "new_task u sp = \<lparr>ctx = 0, url = u, speed = sp, downloadID = ''job-1''\<rparr>"

definition video_url :: string where
  "video_url = ''https://youtu.be/abc''"

definition playlist_url :: string where
  "playlist_url = ''https://www.youtube.com/playlist?list=PL1''"

text \<open>
  Environments. In \<open>calm\<close> the call \<open>downloadSingleVideo(ctx, "", TEMP_DIR)\<close> fails, as it
  does for the empty video id, and processes end well. \<open>downloaded_video\<close> is the end of
  the retry that downloaded \<open>a.mp3\<close>; \<open>downloaded_one\<close> and \<open>downloaded_three\<close> are the
  ends of playlist downloads of one and of three files.
\<close>

definition downloaded_video :: task_env where
  "downloaded_video =
     calm\<lparr>dir_entries := [(''a.mp3'', False)],
          mtime := (\<lambda>p. if p = ''/temp/a.mp3'' then Some 100 else None),
          proc_wrote := [(''/temp/a.mp3'', ''audio a'')]\<rparr>"

definition downloaded_one :: task_env where
  "downloaded_one =
     calm\<lparr>dir_entries := [(''a.mp3'', False)], proc_wrote := [(''/temp/a.mp3'', ''audio a'')]\<rparr>"


text \<open>An ffmpeg that fails after it has written part of its output.\<close>

definition failing_adjust :: adjust_env where
  "failing_adjust =
     calm_adjust\<lparr>ffmpeg_exit := Some (ToolError ''exit status 1''),
                 ffmpeg_output := ''Conversion failed!'', ffmpeg_wrote := Some ''partial''\<rparr>"


definition one_file_os :: os_state where
  "one_file_os = empty_os\<lparr>files := [''/temp/a.mp3'' \<mapsto> ''audio a'']\<rparr>"




text \<open>
  Runs. A cancellation request arrives while ffmpeg works on the single video; while
  ffmpeg works on the last (here the only) file of a playlist; and between the task's
  first test of its context and its first write.
\<close>

definition cancel_while_transforming :: "event list" where
  "cancel_while_transforming =
     [Task calm, Task calm, Task calm, Task calm, Task calm, Task calm, Task downloaded_video,
      Task calm, Cancel ''job-1'', Task calm, Task calm]"

definition cancel_during_last_file :: "event list" where
  "cancel_during_last_file =
     [Task calm, Task calm, Task calm, Task calm, Task calm, Task downloaded_one,
      Task calm, Task calm, Task calm, Cancel ''job-1'', Task calm, Task calm, Task calm]"

definition cancel_right_after_start :: "event list" where
  "cancel_right_after_start = [Task calm, Cancel ''job-1'', Task calm]"

text \<open>
  Two cancellation requests with a write of the task between them: around the task's
  first write, and around the write of \<open>processing\<close> after a playlist download that has
  ended well.
\<close>

definition cancel_twice_around_first_write :: "event list" where
  "cancel_twice_around_first_write =
     [Task calm, Cancel ''job-1'', Task calm, Cancel ''job-1'']"

definition cancel_twice_around_processing :: "event list" where
  "cancel_twice_around_processing =
     [Task calm, Task calm, Task calm, Task calm, Task calm, Task downloaded_one,
      Cancel ''job-1'', Task calm, Cancel ''job-1'']"

text \<open>The answers the cancellation requests of a run get, in order.\<close>

fun cancel_responses :: "task_args \<Rightarrow> event list \<Rightarrow> world \<times> pc \<Rightarrow> response list" where
  "cancel_responses a [] s = []"
| "cancel_responses a (Task e # evs) s = cancel_responses a evs (step a (Task e) s)"
| "cancel_responses a (Cancel jobID # evs) s =
     fst (cancelJobHandler jobID (fst s)) # cancel_responses a evs (step a (Cancel jobID) s)"

text \<open>A single video at speed 1.0 that downloads, with no request in between.\<close>

definition plain_download :: "event list" where
  "plain_download =
     [Task calm, Task calm, Task calm, Task calm, Task calm, Task calm, Task downloaded_video,
      Task calm]"

text \<open>A cancellation request that is served before the task takes its first step.\<close>

definition cancelled_world :: world where
  "cancelled_world = snd (cancelJobHandler ''job-1'' (new_world video_url (3/2)))"




section \<open>Properties of the tempo planner\<close>

lemma round_half_even_close: "\<bar>of_int (round_half_even x) - x\<bar> \<le> 1/2"
proof -
  define f where "f = \<lfloor>x\<rfloor>"
  have b: "of_int f \<le> x" "x < of_int f + 1" unfolding f_def by linarith+
  have "round_half_even x = f \<and> x - of_int f \<le> 1/2
      \<or> round_half_even x = f + 1 \<and> 1/2 \<le> x - of_int f"
    unfolding round_half_even_def Let_def f_def[symmetric] by auto
  with b show ?thesis by (auto simp: abs_if)
qed

lemma round_half_even_ge: "of_int n \<le> x \<Longrightarrow> n \<le> round_half_even x"
proof -
  assume "of_int n \<le> x"
  then have "n \<le> \<lfloor>x\<rfloor>" by (simp add: le_floor_iff)
  then show ?thesis unfolding round_half_even_def Let_def by auto
qed

lemma round_half_even_le: "x \<le> of_int n \<Longrightarrow> round_half_even x \<le> n"
proof (cases "x = of_int n")
  case True
  then show ?thesis unfolding round_half_even_def Let_def by simp
next
  case False
  assume "x \<le> of_int n"
  with False have "x < of_int n" by simp
  then have "\<lfloor>x\<rfloor> < n" by (simp add: floor_less_iff)
  then show ?thesis unfolding round_half_even_def Let_def by auto
qed

lemma fmt4_close: "\<bar>fmt4 x - x\<bar> \<le> 1/20000"
proof -
  have "\<bar>of_int (round_half_even (x * 10000)) - x * 10000\<bar> \<le> 1/2"
    by (rule round_half_even_close)
  then show ?thesis unfolding fmt4_def by (simp add: abs_if field_simps split: if_splits)
qed

lemma fmt4_lower: "1/2 \<le> x \<Longrightarrow> 1/2 \<le> fmt4 x"
proof -
  assume "1/2 \<le> x"
  then have "of_int 5000 \<le> x * 10000" by simp
  then have "5000 \<le> round_half_even (x * 10000)" by (rule round_half_even_ge)
  then have "(5000::real) \<le> of_int (round_half_even (x * 10000))" by linarith
  then show ?thesis unfolding fmt4_def by simp
qed

lemma fmt4_upper: "x \<le> 2 \<Longrightarrow> fmt4 x \<le> 2"
proof -
  assume "x \<le> 2"
  then have "x * 10000 \<le> of_int 20000" by simp
  then have "round_half_even (x * 10000) \<le> 20000" by (rule round_half_even_le)
  then have "of_int (round_half_even (x * 10000)) \<le> (20000::real)" by linarith
  then show ?thesis unfolding fmt4_def by simp
qed

lemma chain_fast_result:
  "\<exists>k. chain_fast r fs = (r / 2 ^ k, fs @ replicate k Atempo_2_0)
       \<and> r / 2 ^ k \<le> 2 \<and> (2 < r \<longrightarrow> 1 < r / 2 ^ k) \<and> (r \<le> 2 \<longrightarrow> k = 0)"
proof (induction r fs rule: chain_fast.induct)
  case (1 remaining filters)
  show ?case
  proof (cases "2 < remaining")
    case False
    then have "chain_fast remaining filters = (remaining / 2 ^ 0, filters @ replicate 0 Atempo_2_0)"
      by simp
    with False show ?thesis by (intro exI[of _ 0]) simp
  next
    case True
    from 1[OF True] obtain k where k:
      "chain_fast (remaining / 2) (filters @ [Atempo_2_0])
         = (remaining / 2 / 2 ^ k, (filters @ [Atempo_2_0]) @ replicate k Atempo_2_0)"
      "remaining / 2 / 2 ^ k \<le> 2"
      "2 < remaining / 2 \<longrightarrow> 1 < remaining / 2 / 2 ^ k"
      "remaining / 2 \<le> 2 \<longrightarrow> k = 0"
      by blast
    have eq: "remaining / 2 / 2 ^ k = remaining / 2 ^ Suc k" by simp
    have "chain_fast remaining filters
            = (remaining / 2 ^ Suc k, filters @ replicate (Suc k) Atempo_2_0)"
      using True k(1) by (simp add: replicate_app_Cons_same del: chain_fast.simps add: chain_fast.simps[of remaining])
    moreover have "remaining / 2 ^ Suc k \<le> 2" using k(2) eq by simp
    moreover have "1 < remaining / 2 ^ Suc k"
    proof (cases "2 < remaining / 2")
      case True
      with k(3) eq show ?thesis by simp
    next
      case False
      with k(4) have "k = 0" by simp
      with \<open>2 < remaining\<close> show ?thesis by simp
    qed
    ultimately show ?thesis using True by (intro exI[of _ "Suc k"]) simp
  qed
qed

lemma chain_slow_steps:
  "1/2 \<le> r * 2 ^ n \<Longrightarrow>
   \<exists>k. chain_slow r fs = Some (r * 2 ^ k, fs @ replicate k Atempo_0_5)
       \<and> 1/2 \<le> r * 2 ^ k \<and> (r < 1/2 \<longrightarrow> r * 2 ^ k < 1) \<and> (1/2 \<le> r \<longrightarrow> k = 0)"
proof (induction n arbitrary: r fs)
  case 0
  then have "chain_slow r fs = Some (r * 2 ^ 0, fs @ replicate 0 Atempo_0_5)"
    by (subst chain_slow.simps) simp
  with 0 show ?case by (intro exI[of _ 0]) simp
next
  case (Suc n)
  show ?case
  proof (cases "r < 1/2")
    case False
    then have "chain_slow r fs = Some (r * 2 ^ 0, fs @ replicate 0 Atempo_0_5)"
      by (subst chain_slow.simps) simp
    with False show ?thesis by (intro exI[of _ 0]) simp
  next
    case True
    have "1/2 \<le> (r / (1/2)) * 2 ^ n" using Suc.prems by simp
    from Suc.IH[OF this, of "fs @ [Atempo_0_5]"] obtain k where k:
      "chain_slow (r / (1/2)) (fs @ [Atempo_0_5])
         = Some (r / (1/2) * 2 ^ k, (fs @ [Atempo_0_5]) @ replicate k Atempo_0_5)"
      "1/2 \<le> r / (1/2) * 2 ^ k"
      "r / (1/2) < 1/2 \<longrightarrow> r / (1/2) * 2 ^ k < 1"
      "1/2 \<le> r / (1/2) \<longrightarrow> k = 0"
      by blast
    have eq: "r / (1/2) * 2 ^ k = r * 2 ^ Suc k" by simp
    have "chain_slow r fs = chain_slow (r / (1/2)) (fs @ [Atempo_0_5])"
      using True by (subst chain_slow.simps) simp
    then have "chain_slow r fs = Some (r * 2 ^ Suc k, fs @ replicate (Suc k) Atempo_0_5)"
      using k(1) eq by (simp add: replicate_app_Cons_same)
    moreover have "1/2 \<le> r * 2 ^ Suc k" using k(2) eq by simp
    moreover have "r * 2 ^ Suc k < 1"
    proof (cases "r / (1/2) < 1/2")
      case True
      with k(3) eq show ?thesis by simp
    next
      case False
      with k(4) have "k = 0" by simp
      with \<open>r < 1/2\<close> show ?thesis by simp
    qed
    ultimately show ?thesis using True by (intro exI[of _ "Suc k"]) simp
  qed
qed

lemma pow2_reaches_half: "0 < (r::real) \<Longrightarrow> \<exists>n. 1/2 \<le> r * 2 ^ n"
proof -
  assume r: "0 < r"
  obtain n where "1 / (2 * r) < 2 ^ n"
    using real_arch_pow[of 2 "1 / (2 * r)"] by auto
  then have "1/2 < r * 2 ^ n" using r by (simp add: field_simps)
  then show ?thesis by (intro exI[of _ n]) simp
qed

lemma chain_slow_result:
  "0 < r \<Longrightarrow>
   \<exists>k. chain_slow r fs = Some (r * 2 ^ k, fs @ replicate k Atempo_0_5)
       \<and> 1/2 \<le> r * 2 ^ k \<and> (r < 1/2 \<longrightarrow> r * 2 ^ k < 1) \<and> (1/2 \<le> r \<longrightarrow> k = 0)"
  using pow2_reaches_half chain_slow_steps by blast

lemma filterChain_mid: "1/2 \<le> m \<Longrightarrow> m \<le> 2 \<Longrightarrow> filterChain m = Some [Atempo_fmt m]"
  by (simp add: filterChain_def)

lemma filterChain_fast:
  assumes "2 < m"
  shows "\<exists>k. filterChain m = Some (replicate k Atempo_2_0 @ [Atempo_fmt (m / 2 ^ k)])
           \<and> 1 < m / 2 ^ k \<and> m / 2 ^ k \<le> 2"
proof -
  obtain k where k: "chain_fast m [] = (m / 2 ^ k, [] @ replicate k Atempo_2_0)"
      "m / 2 ^ k \<le> 2" "2 < m \<longrightarrow> 1 < m / 2 ^ k"
    using chain_fast_result[of m "[]"] by blast
  from k(3) assms have gt: "1 < m / 2 ^ k" by simp
  have "filterChain m = Some (replicate k Atempo_2_0 @ [Atempo_fmt (m / 2 ^ k)])"
    using assms k(1) gt unfolding filterChain_def by simp
  with gt k(2) show ?thesis by blast
qed

lemma filterChain_slow:
  assumes "0 < m" "m < 1/2"
  shows "\<exists>k. filterChain m = Some (replicate k Atempo_0_5 @ [Atempo_fmt (m * 2 ^ k)])
           \<and> 1/2 \<le> m * 2 ^ k \<and> m * 2 ^ k < 1"
proof -
  obtain k where k: "chain_slow m [] = Some (m * 2 ^ k, [] @ replicate k Atempo_0_5)"
      "1/2 \<le> m * 2 ^ k" "m < 1/2 \<longrightarrow> m * 2 ^ k < 1"
    using chain_slow_result[OF assms(1), of "[]"] by blast
  from k(3) assms have lt: "m * 2 ^ k < 1" by simp
  have "filterChain m = Some (replicate k Atempo_0_5 @ [Atempo_fmt (m * 2 ^ k)])"
    using assms k(1) lt unfolding filterChain_def by simp
  with lt k(2) show ?thesis by blast
qed

lemma prod_replicate_2: "prod_list (map atempo_value (replicate k Atempo_2_0)) = 2 ^ k"
  by (induction k) simp_all

lemma prod_replicate_half: "prod_list (map atempo_value (replicate k Atempo_0_5)) = (1/2) ^ k"
  by (induction k) simp_all

lemma stages_in_range_append:
  "stages_in_range (xs @ ys) = (stages_in_range xs \<and> stages_in_range ys)"
  by (simp add: stages_in_range_def)

lemma stages_in_range_replicate_2: "stages_in_range (replicate k Atempo_2_0)"
  by (induction k) (simp_all add: stages_in_range_def)

lemma stages_in_range_replicate_half: "stages_in_range (replicate k Atempo_0_5)"
  by (induction k) (simp_all add: stages_in_range_def)

lemma stages_in_range_fmt: "1/2 \<le> x \<Longrightarrow> x \<le> 2 \<Longrightarrow> stages_in_range [Atempo_fmt x]"
  using fmt4_lower[of x] fmt4_upper[of x] by (simp add: stages_in_range_def)

lemma chain_general:
  assumes "0 < m" "m \<le> 10"
  shows "\<exists>fs. filterChain m = Some fs \<and> stages_in_range fs
           \<and> \<bar>prod_list (map atempo_value fs) - m\<bar> < 1/1000"
proof -
  consider (mid) "1/2 \<le> m" "m \<le> 2" | (fast) "2 < m" | (slow) "m < 1/2" by linarith
  then show ?thesis
  proof cases
    case mid
    have "\<bar>fmt4 m - m\<bar> < 1/1000" using fmt4_close[of m] by simp
    moreover have "stages_in_range [Atempo_fmt m]" using mid by (rule stages_in_range_fmt)
    ultimately show ?thesis using mid
      by (simp add: filterChain_mid)
  next
    case fast
    then obtain k where k:
      "filterChain m = Some (replicate k Atempo_2_0 @ [Atempo_fmt (m / 2 ^ k)])"
      "1 < m / 2 ^ k" "m / 2 ^ k \<le> 2"
      using filterChain_fast by blast
    define r where "r = m / 2 ^ k"
    have m: "m = 2 ^ k * r" unfolding r_def by simp
    have pow: "(2::real) ^ k < 10" using k(2) assms(2) by (simp add: field_simps)
    have "\<bar>2 ^ k * fmt4 r - m\<bar> = 2 ^ k * \<bar>fmt4 r - r\<bar>"
      unfolding m by (simp add: abs_mult flip: right_diff_distrib)
    also have "\<dots> \<le> 2 ^ k * (1/20000)"
      by (rule mult_left_mono[OF fmt4_close]) simp
    also have "\<dots> < 10 * (1/20000)" using pow by simp
    finally have "\<bar>2 ^ k * fmt4 r - m\<bar> < 1/1000" by simp
    moreover have "1 < r" "r \<le> 2" using k(2,3) by (simp_all only: r_def)
    then have "stages_in_range [Atempo_fmt r]"
      by (intro stages_in_range_fmt) linarith+
    then have "stages_in_range (replicate k Atempo_2_0 @ [Atempo_fmt r])"
      by (simp add: stages_in_range_append stages_in_range_replicate_2)
    ultimately show ?thesis using k(1) unfolding r_def[symmetric]
      by (simp add: prod_replicate_2)
  next
    case slow
    then obtain k where k:
      "filterChain m = Some (replicate k Atempo_0_5 @ [Atempo_fmt (m * 2 ^ k)])"
      "1/2 \<le> m * 2 ^ k" "m * 2 ^ k < 1"
      using filterChain_slow[OF assms(1)] by blast
    define r where "r = m * 2 ^ k"
    have m: "m = (1/2) ^ k * r" unfolding r_def by (simp add: power_one_over)
    have pow: "((1::real)/2) ^ k \<le> 1" by (simp add: power_le_one)
    have "\<bar>(1/2) ^ k * fmt4 r - m\<bar> = (1/2) ^ k * \<bar>fmt4 r - r\<bar>"
      unfolding m by (simp add: abs_mult flip: right_diff_distrib)
    also have "\<dots> \<le> 1 * (1/20000)"
      by (rule mult_mono[OF pow fmt4_close]) simp_all
    finally have "\<bar>(1/2) ^ k * fmt4 r - m\<bar> < 1/1000" by simp
    moreover have "1/2 \<le> r" "r < 1" using k(2,3) by (simp_all only: r_def)
    then have "stages_in_range [Atempo_fmt r]"
      by (intro stages_in_range_fmt) linarith+
    then have "stages_in_range (replicate k Atempo_0_5 @ [Atempo_fmt r])"
      by (simp add: stages_in_range_append stages_in_range_replicate_half)
    ultimately show ?thesis using k(1) unfolding r_def[symmetric]
      by (simp add: prod_replicate_half)
  qed
qed

lemma prod_arg_replicate_2: "prod_list (map atempo_arg (replicate k Atempo_2_0)) = 2 ^ k"
  by (induction k) simp_all

lemma prod_arg_replicate_half: "prod_list (map atempo_arg (replicate k Atempo_0_5)) = (1/2) ^ k"
  by (induction k) simp_all

lemma chain_exact:
  assumes "0 < m"
  shows "\<exists>fs. filterChain m = Some fs
           \<and> (\<forall>f \<in> set fs. 1/2 \<le> atempo_arg f \<and> atempo_arg f \<le> 2)
           \<and> prod_list (map atempo_arg fs) = m"
proof -
  consider (mid) "1/2 \<le> m" "m \<le> 2" | (fast) "2 < m" | (slow) "m < 1/2" by linarith
  then show ?thesis
  proof cases
    case mid
    then show ?thesis by (simp add: filterChain_mid)
  next
    case fast
    then obtain k where k:
      "filterChain m = Some (replicate k Atempo_2_0 @ [Atempo_fmt (m / 2 ^ k)])"
      "1 < m / 2 ^ k" "m / 2 ^ k \<le> 2"
      using filterChain_fast by blast
    define r where "r = m / 2 ^ k"
    have r: "1 < r" "r \<le> 2" using k(2,3) by (simp_all only: r_def)
    have m: "2 ^ k * r = m" unfolding r_def by simp
    have "\<forall>f \<in> set (replicate k Atempo_2_0 @ [Atempo_fmt r]). 1/2 \<le> atempo_arg f \<and> atempo_arg f \<le> 2"
      using r by auto
    moreover have "prod_list (map atempo_arg (replicate k Atempo_2_0 @ [Atempo_fmt r])) = m"
      using m by (simp add: prod_arg_replicate_2)
    ultimately show ?thesis using k(1) unfolding r_def[symmetric] by blast
  next
    case slow
    then obtain k where k:
      "filterChain m = Some (replicate k Atempo_0_5 @ [Atempo_fmt (m * 2 ^ k)])"
      "1/2 \<le> m * 2 ^ k" "m * 2 ^ k < 1"
      using filterChain_slow[OF assms] by blast
    define r where "r = m * 2 ^ k"
    have r: "1/2 \<le> r" "r < 1" using k(2,3) by (simp_all only: r_def)
    have m: "(1/2) ^ k * r = m" unfolding r_def by (simp add: power_one_over)
    have "\<forall>f \<in> set (replicate k Atempo_0_5 @ [Atempo_fmt r]). 1/2 \<le> atempo_arg f \<and> atempo_arg f \<le> 2"
      using r by auto
    moreover have "prod_list (map atempo_arg (replicate k Atempo_0_5 @ [Atempo_fmt r])) = m"
      using m by (simp add: prod_arg_replicate_half)
    ultimately show ?thesis using k(1) unfolding r_def[symmetric] by blast
  qed
qed

text \<open>
  Claim C1. For every target multiplier \<open>m\<close> in \<open>(0, 10]\<close> the filter chain is built; every
  stage the planner computed lies in \<open>[0.5, 2.0]\<close> and their product is \<open>m\<close>; every stage
  as ffmpeg reads it from the chain, printed with four decimals, lies in \<open>[0.5, 2.0]\<close> too
  and the product of these is \<open>m\<close> within \<open>0.001\<close>; \<open>m = 3.0\<close> gives the stages
  \<open>[2.0, 1.5]\<close> and \<open>m = 0.25\<close> gives \<open>[0.5, 0.5]\<close>.
\<close>

theorem tempo_chain_stages_bounded_product:
  assumes "0 < m" and "m \<le> 10"
  shows "(\<exists>fs. filterChain m = Some fs
            \<and> (\<forall>f \<in> set fs. 1/2 \<le> atempo_arg f \<and> atempo_arg f \<le> 2)
            \<and> prod_list (map atempo_arg fs) = m
            \<and> (\<forall>f \<in> set fs. 1/2 \<le> atempo_value f \<and> atempo_value f \<le> 2)
            \<and> \<bar>prod_list (map atempo_value fs) - m\<bar> < 1/1000)
       \<and> map_option (map atempo_value) (filterChain 3) = Some [2, 3/2]
       \<and> map_option (map atempo_value) (filterChain (1/4)) = Some [1/2, 1/2]"
proof -
  obtain fs where fs: "filterChain m = Some fs"
      "\<forall>f \<in> set fs. 1/2 \<le> atempo_value f \<and> atempo_value f \<le> 2"
      "\<bar>prod_list (map atempo_value fs) - m\<bar> < 1/1000"
    using chain_general[OF assms] unfolding stages_in_range_def list_all_iff by blast
  obtain fs' where fs': "filterChain m = Some fs'"
      "\<forall>f \<in> set fs'. 1/2 \<le> atempo_arg f \<and> atempo_arg f \<le> 2"
      "prod_list (map atempo_arg fs') = m"
    using chain_exact[OF assms(1)] by blast
  from fs(1) fs'(1) have "fs' = fs" by simp
  with fs fs' have "\<exists>fs. filterChain m = Some fs
            \<and> (\<forall>f \<in> set fs. 1/2 \<le> atempo_arg f \<and> atempo_arg f \<le> 2)
            \<and> prod_list (map atempo_arg fs) = m
            \<and> (\<forall>f \<in> set fs. 1/2 \<le> atempo_value f \<and> atempo_value f \<le> 2)
            \<and> \<bar>prod_list (map atempo_value fs) - m\<bar> < 1/1000"
    by blast
  moreover have "map_option (map atempo_value) (filterChain 3) = Some [2, 3/2]"
    by (simp add: filterChain_def fmt4_def round_half_even_def)
  moreover have "map_option (map atempo_value) (filterChain (1/4)) = Some [1/2, 1/2]"
    by (simp add: filterChain_def chain_slow.simps fmt4_def round_half_even_def)
  ultimately show ?thesis by blast
qed

theorem tempo_chain_stages_bounded_product_witness:
  "(0::real) < 10 \<and> (10::real) \<le> 10
   \<and> filterChain 10 = Some [Atempo_2_0, Atempo_2_0, Atempo_2_0, Atempo_fmt (5/4)]
   \<and> (\<exists>fs. filterChain 10 = Some fs
          \<and> (\<forall>f \<in> set fs. 1/2 \<le> atempo_arg f \<and> atempo_arg f \<le> 2)
          \<and> prod_list (map atempo_arg fs) = 10
          \<and> (\<forall>f \<in> set fs. 1/2 \<le> atempo_value f \<and> atempo_value f \<le> 2)
          \<and> \<bar>prod_list (map atempo_value fs) - 10\<bar> < 1/1000)"
proof -
  have "filterChain 10 = Some [Atempo_2_0, Atempo_2_0, Atempo_2_0, Atempo_fmt (5/4)]"
    by (simp add: filterChain_def)
  then show ?thesis
    using tempo_chain_stages_bounded_product[of 10] by simp
qed

lemma atempo_value_arg: "atempo_value f = fmt4 (atempo_arg f)"
  by (cases f) (simp_all add: fmt4_def round_half_even_def)

lemma spec_fast_chain:
  "map atempo_arg (case chain_fast r fs of (r', fs') \<Rightarrow>
       if r' > 1 then fs' @ [Atempo_fmt r'] else fs')
     = map atempo_arg fs @ spec_fast r"
proof (induction r fs rule: chain_fast.induct)
  case (1 remaining filters)
  show ?case
  proof (cases "2 < remaining")
    case True
    from 1[OF True] True show ?thesis
      by (subst chain_fast.simps, subst spec_fast.simps) simp
  next
    case False
    then show ?thesis
      by (subst chain_fast.simps, subst spec_fast.simps) simp
  qed
qed

lemma spec_slow_chain:
  "1/2 \<le> r * 2 ^ n \<Longrightarrow>
   \<exists>r' fs' st. chain_slow r fs = Some (r', fs') \<and> spec_slow r = Some st
     \<and> map atempo_arg (if r' < 1 then fs' @ [Atempo_fmt r'] else fs') = map atempo_arg fs @ st"
proof (induction n arbitrary: r fs)
  case 0
  then have "1/2 \<le> r" by simp
  then show ?case
    by (subst chain_slow.simps, subst spec_slow.simps) simp
next
  case (Suc n)
  show ?case
  proof (cases "r < 1/2")
    case False
    then show ?thesis
      by (subst chain_slow.simps, subst spec_slow.simps) simp
  next
    case True
    have "1/2 \<le> (r / (1/2)) * 2 ^ n" using Suc.prems by simp
    from Suc.IH[OF this, of "fs @ [Atempo_0_5]"] obtain r' fs' st where st:
      "chain_slow (r / (1/2)) (fs @ [Atempo_0_5]) = Some (r', fs')"
      "spec_slow (r / (1/2)) = Some st"
      "map atempo_arg (if r' < 1 then fs' @ [Atempo_fmt r'] else fs')
         = map atempo_arg (fs @ [Atempo_0_5]) @ st"
      by blast
    have "chain_slow r fs = Some (r', fs')"
      using True st(1) by (subst chain_slow.simps) simp
    moreover have "spec_slow r = Some (1/2 # st)"
      using True st(2) by (subst spec_slow.simps) simp
    ultimately show ?thesis using st(3) by simp
  qed
qed

text \<open>
  Claim C2. The chain follows the specification's construction: for every \<open>m > 0\<close> the
  construction yields a stage list, the code yields a chain, and the multipliers of the
  chain's filters are that stage list, stage by stage: \<open>[m]\<close> for \<open>m\<close> in \<open>[0.5, 2.0]\<close>;
  stages \<open>2.0\<close> until the remainder is \<open>\<le> 2.0\<close> and then the remainder if and only if it
  exceeds \<open>1.0\<close>; stages \<open>0.5\<close> until the remainder is \<open>\<ge> 0.5\<close> and then the remainder if and
  only if it is below \<open>1.0\<close>. What ffmpeg reads is each stage printed with four decimals.
\<close>

theorem filter_chain_follows_spec_construction:
  assumes "0 < m"
  shows "\<exists>st fs. spec_stages m = Some st \<and> filterChain m = Some fs
           \<and> map atempo_arg fs = st \<and> map atempo_value fs = map fmt4 st"
proof -
  have "\<exists>st fs. spec_stages m = Some st \<and> filterChain m = Some fs \<and> map atempo_arg fs = st"
  proof -
    consider (mid) "1/2 \<le> m" "m \<le> 2" | (fast) "2 < m" | (slow) "m < 1/2" by linarith
    then show ?thesis
    proof cases
      case mid
      then show ?thesis by (simp add: spec_stages_def filterChain_def)
    next
      case fast
      obtain r' fs' where c: "chain_fast m [] = (r', fs')" by (cases "chain_fast m []")
      with spec_fast_chain[of m "[]"]
      have "map atempo_arg (if r' > 1 then fs' @ [Atempo_fmt r'] else fs') = spec_fast m"
        by simp
      with fast c show ?thesis by (simp add: spec_stages_def filterChain_def)
    next
      case slow
      obtain n where "1/2 \<le> m * 2 ^ n" using pow2_reaches_half[OF assms] by blast
      from spec_slow_chain[OF this, of "[]"] obtain r' fs' st where st:
        "chain_slow m [] = Some (r', fs')" "spec_slow m = Some st"
        "map atempo_arg (if r' < 1 then fs' @ [Atempo_fmt r'] else fs') = st"
        by auto
      with slow show ?thesis by (simp add: spec_stages_def filterChain_def)
    qed
  qed
  then obtain st fs where *: "spec_stages m = Some st" "filterChain m = Some fs"
    "map atempo_arg fs = st" by blast
  have "map atempo_value fs = map fmt4 (map atempo_arg fs)"
    by (simp add: atempo_value_arg)
  with * show ?thesis by simp
qed

theorem filter_chain_follows_spec_construction_witness:
  "(0::real) < 1/3
   \<and> spec_stages (1/3) = Some [1/2, 2/3]
   \<and> filterChain (1/3) = Some [Atempo_0_5, Atempo_fmt (2/3)]
   \<and> (\<exists>st fs. spec_stages (1/3) = Some st \<and> filterChain (1/3) = Some fs
          \<and> map atempo_arg fs = st \<and> map atempo_value fs = map fmt4 st)"
proof -
  have "spec_stages (1/3) = Some [1/2, 2/3]"
    by (simp add: spec_stages_def spec_slow.simps)
  moreover have "filterChain (1/3) = Some [Atempo_0_5, Atempo_fmt (2/3)]"
    by (simp add: filterChain_def chain_slow.simps)
  ultimately show ?thesis
    using filter_chain_follows_spec_construction[of "1/3"] by simp
qed

text \<open>
  For a multiplier that is not positive the second loop never ends: \<open>remaining\<close> stays
  below \<open>0.5\<close> however often it is doubled, and no filter chain is returned.
\<close>

lemma chain_slow_returns_positive:
  assumes ret: "chain_slow r fs = Some y"
  shows "0 < r"
proof (rule chain_slow.raw_induct[where P = "\<lambda>r fs y. 0 < r", OF _ ret])
  fix f :: "real \<Rightarrow> atempo list \<Rightarrow> (real \<times> atempo list) option"
    and remaining :: real and filters :: "atempo list" and y' :: "real \<times> atempo list"
  assume IH: "\<And>a b y. f a b = Some y \<Longrightarrow> 0 < a"
    and eq: "(if remaining < 1/2 then f (remaining / (1/2)) (filters @ [Atempo_0_5])
              else Some (remaining, filters)) = Some y'"
  show "0 < remaining"
  proof (cases "remaining < 1/2")
    case True
    with eq have "f (remaining / (1/2)) (filters @ [Atempo_0_5]) = Some y'"
      by (simp only: if_True)
    from IH[OF this] show ?thesis by simp
  next
    case False
    then show ?thesis by simp
  qed
qed

lemma filterChain_nonpositive: "m \<le> 0 \<Longrightarrow> filterChain m = None"
proof -
  assume m: "m \<le> 0"
  have "chain_slow m [] = None"
  proof (cases "chain_slow m []")
    case None
    then show ?thesis .
  next
    case (Some y)
    from chain_slow_returns_positive[OF this] m show ?thesis by simp
  qed
  with m show ?thesis by (simp add: filterChain_def)
qed

section \<open>Properties of the audio post-processor\<close>

lemma adjust_ffmpeg_failure:
  assumes "filterChain sp = Some chain" "ffmpeg_exit env = Some e"
  shows "\<exists>err z'. adjustAudioSpeed cd env inputFile sp z = Some (Some err, z')
           \<and> files z' inputFile = files z inputFile
           \<and> files z' (inputFile @ ''.tmp.mp3'')
               = (if cd then files z (inputFile @ ''.tmp.mp3'')
                  else case ffmpeg_wrote env of
                         None \<Rightarrow> files z (inputFile @ ''.tmp.mp3'')
                       | Some c \<Rightarrow> Some c)"
  using assms
  by (auto simp: adjustAudioSpeed_def run_ffmpeg_def start_process_def Let_def
           split: option.splits)

lemma adjust_success:
  assumes "filterChain sp = Some chain" "\<not> cd" "ffmpeg_exit env = None"
    "ffmpeg_wrote env = Some c" "remove_fault env = None" "rename_fault env = None"
    "files z inputFile \<noteq> None"
  shows "\<exists>z'. adjustAudioSpeed cd env inputFile sp z = Some (None, z')
           \<and> files z' inputFile = Some c \<and> files z' (inputFile @ ''.tmp.mp3'') = None"
  using assms
  by (auto simp: adjustAudioSpeed_def run_ffmpeg_def start_process_def Let_def
        os_Remove_def os_Rename_def
           split: option.splits)

lemma adjust_changed_original:
  assumes "adjustAudioSpeed cd env inputFile sp z = Some (r, z')"
    "files z' inputFile \<noteq> files z inputFile"
  shows "\<not> cd \<and> ffmpeg_exit env = None"
  using assms
  by (auto simp: adjustAudioSpeed_def run_ffmpeg_def start_process_def Let_def
        os_Remove_def os_Rename_def
           split: option.splits if_splits prod.splits)

text \<open>
  Claim C4 as it is stated does not hold: when ffmpeg fails after writing part of its
  output, \<open>adjustAudioSpeed\<close> returns the error and the temporary file is still there.
  Here ffmpeg fails on \<open>/temp/a.mp3\<close> having written \<open>partial\<close>: the original keeps its
  content and \<open>/temp/a.mp3.tmp.mp3\<close> holds \<open>partial\<close>.
\<close>

theorem failed_transform_keeps_temp_file:
  "map_option (\<lambda>(r, z). (r, files z ''/temp/a.mp3'', files z ''/temp/a.mp3.tmp.mp3''))
     (adjustAudioSpeed False failing_adjust ''/temp/a.mp3'' (3/2) one_file_os)
   = Some (Some (Ffmpeg_failed (ToolError ''exit status 1'') ''Conversion failed!''),
           Some ''audio a'', Some ''partial'')"
  by (simp add: adjustAudioSpeed_def filterChain_def run_ffmpeg_def start_process_def
        failing_adjust_def calm_adjust_def one_file_os_def empty_os_def Let_def)

text \<open>
  Claim C4, amended. When ffmpeg reports failure, \<open>adjustAudioSpeed\<close> returns an error,
  the original input file is as it was, and the temporary sibling file is as ffmpeg left
  it: the function does not remove it. When ffmpeg reports success (and the two system
  calls that follow succeed on an existing original), the original path holds what ffmpeg
  wrote and the temporary file is gone. Whenever the call changes the original, ffmpeg
  had been started and had reported success.
\<close>

theorem original_replaced_only_after_ffmpeg_success:
  assumes "filterChain sp = Some chain"
  shows "(ffmpeg_exit env \<noteq> None \<longrightarrow>
            (\<exists>err z'. adjustAudioSpeed cd env inputFile sp z = Some (Some err, z')
               \<and> files z' inputFile = files z inputFile
               \<and> files z' (inputFile @ ''.tmp.mp3'')
                   = (if cd then files z (inputFile @ ''.tmp.mp3'')
                      else case ffmpeg_wrote env of
                             None \<Rightarrow> files z (inputFile @ ''.tmp.mp3'')
                           | Some c \<Rightarrow> Some c)))
       \<and> (\<not> cd \<and> ffmpeg_exit env = None \<and> ffmpeg_wrote env = Some c
            \<and> remove_fault env = None \<and> rename_fault env = None
            \<and> files z inputFile \<noteq> None \<longrightarrow>
            (\<exists>z'. adjustAudioSpeed cd env inputFile sp z = Some (None, z')
               \<and> files z' inputFile = Some c \<and> files z' (inputFile @ ''.tmp.mp3'') = None))
       \<and> (\<forall>r z'. adjustAudioSpeed cd env inputFile sp z = Some (r, z')
              \<and> files z' inputFile \<noteq> files z inputFile \<longrightarrow>
            \<not> cd \<and> ffmpeg_exit env = None)"
proof (intro conjI impI allI)
  assume "ffmpeg_exit env \<noteq> None"
  then obtain e where "ffmpeg_exit env = Some e" by blast
  from adjust_ffmpeg_failure[OF assms this]
  show "\<exists>err z'. adjustAudioSpeed cd env inputFile sp z = Some (Some err, z')
          \<and> files z' inputFile = files z inputFile
          \<and> files z' (inputFile @ ''.tmp.mp3'')
              = (if cd then files z (inputFile @ ''.tmp.mp3'')
                 else case ffmpeg_wrote env of
                        None \<Rightarrow> files z (inputFile @ ''.tmp.mp3'')
                      | Some c \<Rightarrow> Some c)" .
next
  assume "\<not> cd \<and> ffmpeg_exit env = None \<and> ffmpeg_wrote env = Some c
            \<and> remove_fault env = None \<and> rename_fault env = None
            \<and> files z inputFile \<noteq> None"
  then show "\<exists>z'. adjustAudioSpeed cd env inputFile sp z = Some (None, z')
               \<and> files z' inputFile = Some c \<and> files z' (inputFile @ ''.tmp.mp3'') = None"
    using adjust_success[OF assms] by blast
next
  fix r z'
  assume *: "adjustAudioSpeed cd env inputFile sp z = Some (r, z')
              \<and> files z' inputFile \<noteq> files z inputFile"
  then show "\<not> cd" using adjust_changed_original by blast
  from * show "ffmpeg_exit env = None" using adjust_changed_original by blast
qed

theorem original_replaced_only_after_ffmpeg_success_witness:
  "filterChain (3/2) = Some [Atempo_fmt (3/2)]
   \<and> ffmpeg_exit failing_adjust \<noteq> None
   \<and> (\<exists>err z'. adjustAudioSpeed False failing_adjust ''/temp/a.mp3'' (3/2) one_file_os
                  = Some (Some err, z')
          \<and> files z' ''/temp/a.mp3'' = Some ''audio a''
          \<and> files z' ''/temp/a.mp3.tmp.mp3'' = Some ''partial'')
   \<and> ffmpeg_exit calm_adjust = None
   \<and> (\<exists>z'. adjustAudioSpeed False calm_adjust ''/temp/a.mp3'' (3/2) one_file_os
                  = Some (None, z')
          \<and> files z' ''/temp/a.mp3'' = Some ''faster''
          \<and> files z' ''/temp/a.mp3.tmp.mp3'' = None)"
proof -
  have chain: "filterChain (3/2) = Some [Atempo_fmt (3/2)]"
    by (simp add: filterChain_def)
  show ?thesis
    using original_replaced_only_after_ffmpeg_success
            [OF chain, where env = failing_adjust and cd = False
               and inputFile = "''/temp/a.mp3''" and z = one_file_os]
          original_replaced_only_after_ffmpeg_success
            [OF chain, where env = calm_adjust and cd = False and c = "''faster''"
               and inputFile = "''/temp/a.mp3''" and z = one_file_os]
          chain
    by (simp add: failing_adjust_def calm_adjust_def one_file_os_def empty_os_def)
qed

section \<open>Properties of the move\<close>








section \<open>Properties of the cancellation request\<close>

lemma cancel_inactive:
  "downloads w jobID = Some job \<Longrightarrow> \<not> active (Status job) \<Longrightarrow>
   cancelJobHandler jobID w = (Bad_request ''Job cannot be cancelled'', w)"
  by (simp add: cancelJobHandler_def active_def)

lemma cancel_missing:
  "downloads w jobID = None \<Longrightarrow> cancelJobHandler jobID w = (Not_found ''Job not found'', w)"
  by (simp add: cancelJobHandler_def)

lemma cancel_active:
  assumes "downloads w jobID = Some job" "active (Status job)"
  shows "\<exists>w'. cancelJobHandler jobID w = (Ok_job_cancelled, w')
           \<and> downloads w' jobID
               = Some (job\<lparr>Status := ''cancelled'', Message := Text ''Job cancelled by user''\<rparr>)
           \<and> killed (os w') = killed (os w) @
                (case cmd job of None \<Rightarrow> []
                 | Some command \<Rightarrow> (case Process command of None \<Rightarrow> [] | Some pid \<Rightarrow> [pid]))"
  using assms
  by (auto simp: cancelJobHandler_def active_def Let_def ctx_cancel_def Process_Kill_def
           split: option.splits)

lemma cancel_repeat:
  assumes "downloads w jobID = Some job" "\<not> active (Status job)"
  shows "run a (replicate n (Cancel jobID)) (w, p) = (w, p)"
  using assms by (induction n) (simp_all add: cancel_inactive)

text \<open>
  The handler by itself. A cancellation request succeeds only while the job's status is
  \<open>queued\<close>, \<open>downloading\<close> or \<open>processing\<close>. For a job in any other status it answers
  that the job cannot be cancelled and changes nothing: no context is cancelled and no
  process killed. A request that succeeds sends at most one kill and leaves the job
  \<open>cancelled\<close>; requests that follow it with nothing in between are refused.
\<close>

lemma cancel_handler_guard:
  "(case downloads w jobID of
      None \<Rightarrow> cancelJobHandler jobID w = (Not_found ''Job not found'', w)
    | Some job \<Rightarrow>
        if active (Status job) then
          (\<exists>w'. cancelJobHandler jobID w = (Ok_job_cancelled, w')
             \<and> status_of jobID (w', p) = ''cancelled''
             \<and> length (killed (os w')) \<le> length (killed (os w)) + 1
             \<and> cancelJobHandler jobID w' = (Bad_request ''Job cannot be cancelled'', w')
             \<and> (\<forall>n. run a (replicate n (Cancel jobID)) (w', p) = (w', p)))
        else cancelJobHandler jobID w = (Bad_request ''Job cannot be cancelled'', w))"
proof (cases "downloads w jobID")
  case None
  then show ?thesis by (simp add: cancel_missing)
next
  case (Some job)
  show ?thesis
  proof (cases "active (Status job)")
    case False
    with Some show ?thesis by (simp add: cancel_inactive)
  next
    case True
    from cancel_active[OF Some True] obtain w' where w':
      "cancelJobHandler jobID w = (Ok_job_cancelled, w')"
      "downloads w' jobID
         = Some (job\<lparr>Status := ''cancelled'', Message := Text ''Job cancelled by user''\<rparr>)"
      "killed (os w') = killed (os w) @
         (case cmd job of None \<Rightarrow> []
          | Some command \<Rightarrow> (case Process command of None \<Rightarrow> [] | Some pid \<Rightarrow> [pid]))"
      by blast
    have inactive: "\<not> active (Status (job\<lparr>Status := ''cancelled'',
                                           Message := Text ''Job cancelled by user''\<rparr>))"
      by (simp add: active_def)
    have "status_of jobID (w', p) = ''cancelled''"
      using w'(2) by (simp add: status_of_def)
    moreover have "length (killed (os w')) \<le> length (killed (os w)) + 1"
      using w'(3) by (simp split: option.splits)
    moreover have "cancelJobHandler jobID w' = (Bad_request ''Job cannot be cancelled'', w')"
      using cancel_inactive[OF w'(2) inactive] .
    moreover have "\<forall>n. run a (replicate n (Cancel jobID)) (w', p) = (w', p)"
      using cancel_repeat[OF w'(2) inactive] by blast
    ultimately show ?thesis using Some True w'(1) by simp
  qed
qed

text \<open>
  Claim C6 does not hold of the code. The handler refuses a job that is not active, but
  the task writes over \<open>cancelled\<close>, and a second request then finds an active job. A
  request served between the task's entry test and its first write is followed by
  \<open>downloading\<close>, and the second request succeeds as the first did. A request served
  after the playlist download has ended kills the stored process 0 and is followed by
  \<open>processing\<close>; the second request succeeds too and kills process 0 again. The lists
  are the job's status after each event, the answers to the two requests, and the
  \<open>Process.Kill\<close> calls made.
\<close>

theorem second_cancel_succeeds_after_task_write:
  "map (status_of ''job-1'')
     (states (new_task video_url (3/2)) cancel_twice_around_first_write
        (submitted (new_world video_url (3/2))))
     = [''queued'', ''queued'', ''cancelled'', ''downloading'', ''cancelled'']
   \<and> cancel_responses (new_task video_url (3/2)) cancel_twice_around_first_write
        (submitted (new_world video_url (3/2)))
     = [Ok_job_cancelled, Ok_job_cancelled]
   \<and> map (status_of ''job-1'')
        (states (new_task playlist_url (3/2)) cancel_twice_around_processing
           (submitted (new_world playlist_url (3/2))))
     = [''queued'', ''queued'', ''downloading'', ''downloading'', ''downloading'',
        ''downloading'', ''downloading'', ''cancelled'', ''processing'', ''cancelled'']
   \<and> cancel_responses (new_task playlist_url (3/2)) cancel_twice_around_processing
        (submitted (new_world playlist_url (3/2)))
     = [Ok_job_cancelled, Ok_job_cancelled]
   \<and> killed (os (fst (run (new_task playlist_url (3/2)) cancel_twice_around_processing
                          (submitted (new_world playlist_url (3/2))))))
     = [0, 0]"
proof -
  have "map (status_of ''job-1'')
     (states (new_task video_url (3/2)) cancel_twice_around_first_write
        (submitted (new_world video_url (3/2))))
     = [''queued'', ''queued'', ''cancelled'', ''downloading'', ''cancelled'']"
    by code_simp
  moreover have "cancel_responses (new_task video_url (3/2)) cancel_twice_around_first_write
        (submitted (new_world video_url (3/2)))
     = [Ok_job_cancelled, Ok_job_cancelled]"
    by code_simp
  moreover have "map (status_of ''job-1'')
        (states (new_task playlist_url (3/2)) cancel_twice_around_processing
           (submitted (new_world playlist_url (3/2))))
     = [''queued'', ''queued'', ''downloading'', ''downloading'', ''downloading'',
        ''downloading'', ''downloading'', ''cancelled'', ''processing'', ''cancelled'']"
    by code_simp
  moreover have "cancel_responses (new_task playlist_url (3/2)) cancel_twice_around_processing
        (submitted (new_world playlist_url (3/2)))
     = [Ok_job_cancelled, Ok_job_cancelled]"
    by code_simp
  moreover have "killed (os (fst (run (new_task playlist_url (3/2))
                                   cancel_twice_around_processing
                                   (submitted (new_world playlist_url (3/2))))))
     = [0, 0]"
    by code_simp
  ultimately show ?thesis by blast
qed

section \<open>Properties of the task executor\<close>

lemma tool_wrote_started [simp]: "started (tool_wrote xs z) = started z"
  by (induction xs z rule: tool_wrote.induct) (simp_all add: write_file_def)

lemma tool_wrote_killed [simp]: "killed (tool_wrote xs z) = killed z"
  by (induction xs z rule: tool_wrote.induct) (simp_all add: write_file_def)

lemma calls_adjust_in_processing: "calls_adjustAudioSpeed p \<Longrightarrow> in_processing p"
  by (cases p) simp_all

lemma cancel_untransformed:
  assumes "untransformed jobID F (w, p)"
  shows "untransformed jobID F (snd (cancelJobHandler other w), p)"
  using assms
  by (auto simp: untransformed_def cancelJobHandler_def status_of_def ffmpeg_runs_def Let_def
        ctx_cancel_def Process_Kill_def split: option.splits)

lemma task_step_untransformed:
  assumes "speed a = 1" "untransformed (downloadID a) F (w, p)"
  shows "untransformed (downloadID a) F (task_step a e w p)"
  using assms
  by (cases p)
     (auto simp: untransformed_def status_of_def ffmpeg_runs_def locked_update_def job_update_def
        job_update_if_exists_def cmd_Start_def cmd_Wait_def start_process_def
        downloadSingleVideo_def after_download_def Let_def
        split: option.splits prod.splits sum.splits if_splits)

lemma step_untransformed:
  assumes "speed a = 1" "untransformed (downloadID a) F s"
  shows "untransformed (downloadID a) F (step a ev s)"
proof (cases s)
  case (Pair w p)
  with assms show ?thesis
    by (cases ev) (simp_all add: task_step_untransformed cancel_untransformed)
qed

lemma states_untransformed:
  assumes "speed a = 1"
  shows "untransformed (downloadID a) F s \<Longrightarrow>
         \<forall>s' \<in> set (states a evs s). untransformed (downloadID a) F s'"
proof (induction evs arbitrary: s)
  case Nil
  then show ?case by simp
next
  case (Cons ev evs)
  from step_untransformed[OF assms Cons.prems]
  have "untransformed (downloadID a) F (step a ev s)" .
  from Cons.IH[OF this] Cons.prems show ?case by simp
qed

lemma identity_speed_run:
  assumes "speed a = 1" and "status_of (downloadID a) (w, At_start) \<noteq> ''processing''"
  shows "\<forall>s \<in> set (states a evs (w, At_start)).
           \<not> calls_adjustAudioSpeed (snd s) \<and> status_of (downloadID a) s \<noteq> ''processing''
           \<and> ffmpeg_runs s = ffmpeg_runs (w, At_start)"
proof -
  have "untransformed (downloadID a) (ffmpeg_runs (w, At_start)) (w, At_start)"
    using assms(2) by (simp add: untransformed_def)
  from states_untransformed[OF assms(1) this, of evs] show ?thesis
    using calls_adjust_in_processing by (auto simp: untransformed_def)
qed

text \<open>
  Claim C7. For a job whose speed multiplier is exactly \<open>1.0\<close>, in every run of its task,
  whatever the URL, the environment and the cancellation requests in between: the task
  never stands at a call of \<open>adjustAudioSpeed\<close>, no ffmpeg is started, and the job's
  status is never \<open>processing\<close>. The status goes from \<open>downloading\<close> to \<open>completed\<close> (or
  to \<open>error\<close> or \<open>cancelled\<close>) with nothing in between.
\<close>

theorem identity_speed_never_transforms:
  assumes "speed a = 1" and "status_of (downloadID a) (w, At_start) \<noteq> ''processing''"
  shows "\<forall>s \<in> set (states a evs (w, At_start)).
           \<not> calls_adjustAudioSpeed (snd s) \<and> status_of (downloadID a) s \<noteq> ''processing''
           \<and> ffmpeg_runs s = ffmpeg_runs (w, At_start)"
  using assms by (rule identity_speed_run)

lemma plain_download_statuses:
  "map (status_of ''job-1'') (states (new_task video_url 1) plain_download
                                     (new_world video_url 1, At_start))
   = [''queued'', ''queued'', ''downloading'', ''downloading'', ''downloading'',
      ''downloading'', ''downloading'', ''downloading'', ''completed'']"
  by code_simp

theorem identity_speed_never_transforms_witness:
  "speed (new_task video_url 1) = 1
   \<and> status_of (downloadID (new_task video_url 1)) (new_world video_url 1, At_start)
       \<noteq> ''processing''
   \<and> map (status_of ''job-1'') (states (new_task video_url 1) plain_download
                                        (new_world video_url 1, At_start))
       = [''queued'', ''queued'', ''downloading'', ''downloading'', ''downloading'',
          ''downloading'', ''downloading'', ''downloading'', ''completed'']
   \<and> list_all (\<lambda>s. \<not> calls_adjustAudioSpeed (snd s)
                   \<and> status_of (downloadID (new_task video_url 1)) s \<noteq> ''processing''
                   \<and> ffmpeg_runs s = ffmpeg_runs (new_world video_url 1, At_start))
        (states (new_task video_url 1) plain_download (new_world video_url 1, At_start))"
proof -
  have sp: "speed (new_task video_url 1) = 1"
    by (simp add: new_task_def)
  have st: "status_of (downloadID (new_task video_url 1)) (new_world video_url 1, At_start)
              \<noteq> ''processing''"
    by (simp add: new_task_def new_world_def new_job_def status_of_def)
  from identity_speed_never_transforms[OF sp st, of plain_download]
  have "list_all (\<lambda>s. \<not> calls_adjustAudioSpeed (snd s)
                   \<and> status_of (downloadID (new_task video_url 1)) s \<noteq> ''processing''
                   \<and> ffmpeg_runs s = ffmpeg_runs (new_world video_url 1, At_start))
        (states (new_task video_url 1) plain_download (new_world video_url 1, At_start))"
    unfolding list_all_iff .
  with sp st plain_download_statuses show ?thesis by blast
qed

lemma finished_stays:
  "run a (map Task es) (w, Finished) = (w, Finished)"
  by (induction es) simp_all

text \<open>
  Claim C8. When the job's context is already cancelled as its task starts, the first
  step of the task sets the job to \<open>cancelled\<close> and returns: the operating system is as
  before, so no external process was started, and the task does nothing afterwards.
\<close>

theorem cancelled_before_start_runs_nothing:
  assumes "ctx_Done w (ctx a)" and "downloads w (downloadID a) = Some job"
  shows "\<exists>w'. step a (Task e) (w, At_start) = (w', Finished)
           \<and> downloads w' (downloadID a)
               = Some (job\<lparr>Status := ''cancelled'',
                           Message := Text ''Job cancelled before starting''\<rparr>)
           \<and> os w' = os w
           \<and> (\<forall>es. run a (map Task es) (w', Finished) = (w', Finished))"
  using assms by (simp add: job_update_if_exists_def finished_stays)

theorem cancelled_before_start_runs_nothing_witness:
  "ctx_Done cancelled_world (ctx (new_task video_url (3/2)))
   \<and> downloads cancelled_world (downloadID (new_task video_url (3/2)))
       = Some ((new_job video_url (3/2))
                 \<lparr>Status := ''cancelled'', Message := Text ''Job cancelled by user''\<rparr>)
   \<and> started (os cancelled_world) = []
   \<and> (\<exists>w'. step (new_task video_url (3/2)) (Task calm) (cancelled_world, At_start)
               = (w', Finished)
          \<and> downloads w' (downloadID (new_task video_url (3/2)))
              = Some ((new_job video_url (3/2))
                        \<lparr>Status := ''cancelled'',
                         Message := Text ''Job cancelled before starting''\<rparr>)
          \<and> os w' = os cancelled_world
          \<and> (\<forall>es. run (new_task video_url (3/2)) (map Task es) (w', Finished)
                     = (w', Finished)))"
proof -
  have c: "ctx_Done cancelled_world (ctx (new_task video_url (3/2)))"
    by (simp add: cancelled_world_def cancelJobHandler_def new_world_def new_job_def
          new_task_def ctx_Done_def ctx_cancel_def)
  have d: "downloads cancelled_world (downloadID (new_task video_url (3/2)))
             = Some ((new_job video_url (3/2))
                       \<lparr>Status := ''cancelled'', Message := Text ''Job cancelled by user''\<rparr>)"
    by (simp add: cancelled_world_def cancelJobHandler_def new_world_def new_job_def
          new_task_def ctx_cancel_def)
  have s: "started (os cancelled_world) = []"
    by (simp add: cancelled_world_def cancelJobHandler_def new_world_def new_job_def
          ctx_cancel_def empty_os_def)
  from cancelled_before_start_runs_nothing[OF c d, of calm] c d s
  show ?thesis by simp
qed

lemma downloadHandler_created:
  assumes "u \<noteq> []"
  shows "downloadHandler (Json (Some u) sp_field) uuid now w
         = (Ok_download_id uuid,
            w\<lparr>contexts := contexts w @ [False],
              downloads := (downloads w)(uuid \<mapsto>
                \<lparr>ID = uuid, Status = ''queued'', Message = Text ''Starting download...'',
                 Progress = ''0%'', URL = u,
                 Speed = (case sp_field of None \<Rightarrow> 1 | Some v \<Rightarrow> if v = 0 then 1 else v),
                 CreatedAt = now, cancel = Some (length (contexts w)), cmd = None\<rparr>)\<rparr>,
            Some \<lparr>ctx = length (contexts w), url = u,
                  speed = (case sp_field of None \<Rightarrow> 1 | Some v \<Rightarrow> if v = 0 then 1 else v),
                  downloadID = uuid\<rparr>)"
  using assms by (cases sp_field) (simp_all add: downloadHandler_def Let_def)

text \<open>
  Claim C10. A submission with a URL whose \<open>speed\<close> field is missing, or is \<open>0\<close>, is
  accepted, and \<open>downloadHandler\<close> does for it exactly what it does for the same
  submission with \<open>speed = 1.0\<close>: the same response, the same job in the registry, the
  same goroutine. That job has speed \<open>1.0\<close>, so in every run of its task no transform is
  applied.
\<close>

theorem missing_or_zero_speed_is_speed_one:
  assumes "u \<noteq> []"
  shows "downloadHandler (Json (Some u) None) uuid now w
           = downloadHandler (Json (Some u) (Some 1)) uuid now w
       \<and> downloadHandler (Json (Some u) (Some 0)) uuid now w
           = downloadHandler (Json (Some u) (Some 1)) uuid now w
       \<and> (\<exists>w' a. downloadHandler (Json (Some u) None) uuid now w
                    = (Ok_download_id uuid, w', Some a)
             \<and> speed a = 1 \<and> downloadID a = uuid
             \<and> map_option Speed (downloads w' uuid) = Some 1
             \<and> status_of uuid (submitted w') = ''queued''
             \<and> (\<forall>evs. \<forall>s \<in> set (states a evs (submitted w')).
                   \<not> calls_adjustAudioSpeed (snd s) \<and> status_of uuid s \<noteq> ''processing''
                   \<and> ffmpeg_runs s = ffmpeg_runs (submitted w')))"
proof -
  define w' where "w' = fst (snd (downloadHandler (Json (Some u) None) uuid now w))"
  define a where "a = \<lparr>ctx = length (contexts w), url = u, speed = 1, downloadID = uuid\<rparr>"
  have eq: "downloadHandler (Json (Some u) None) uuid now w = (Ok_download_id uuid, w', Some a)"
    unfolding w'_def a_def by (simp add: downloadHandler_created[OF assms])
  have sp: "speed a = 1" "downloadID a = uuid" by (simp_all add: a_def)
  have job: "map_option Speed (downloads w' uuid) = Some 1"
    unfolding w'_def by (simp add: downloadHandler_created[OF assms])
  have st: "status_of uuid (submitted w') = ''queued''"
    unfolding w'_def by (simp add: downloadHandler_created[OF assms] status_of_def submitted_def)
  then have "status_of (downloadID a) (w', At_start) \<noteq> ''processing''"
    by (simp add: sp submitted_def)
  from identity_speed_run[OF sp(1) this]
  have runs: "\<forall>evs. \<forall>s \<in> set (states a evs (submitted w')).
                 \<not> calls_adjustAudioSpeed (snd s) \<and> status_of uuid s \<noteq> ''processing''
                 \<and> ffmpeg_runs s = ffmpeg_runs (submitted w')"
    by (simp add: sp submitted_def)
  have "downloadHandler (Json (Some u) None) uuid now w
          = downloadHandler (Json (Some u) (Some 1)) uuid now w"
    by (simp add: downloadHandler_created[OF assms])
  moreover have "downloadHandler (Json (Some u) (Some 0)) uuid now w
          = downloadHandler (Json (Some u) (Some 1)) uuid now w"
    by (simp add: downloadHandler_created[OF assms])
  ultimately show ?thesis using eq sp job st runs by blast
qed

theorem missing_or_zero_speed_is_speed_one_witness:
  "video_url \<noteq> []
   \<and> downloadHandler (Json (Some video_url) None) ''job-1'' 7 empty_world
       = (Ok_download_id ''job-1'', new_world video_url 1, Some (new_task video_url 1))
   \<and> downloadHandler (Json (Some video_url) None) ''job-1'' 7 empty_world
       = downloadHandler (Json (Some video_url) (Some 1)) ''job-1'' 7 empty_world
   \<and> downloadHandler (Json (Some video_url) (Some 0)) ''job-1'' 7 empty_world
       = downloadHandler (Json (Some video_url) (Some 1)) ''job-1'' 7 empty_world"
proof -
  have u: "video_url \<noteq> []" by (simp add: video_url_def)
  have "downloadHandler (Json (Some video_url) None) ''job-1'' 7 empty_world
       = (Ok_download_id ''job-1'', new_world video_url 1, Some (new_task video_url 1))"
    by (simp add: downloadHandler_created[OF u] empty_world_def new_world_def new_job_def
          new_task_def)
  with u missing_or_zero_speed_is_speed_one[OF u, of "''job-1''" 7 empty_world]
  show ?thesis by simp
qed

text \<open>
  Claim C3 does not hold of the code. The first request of a fresh server asks for a
  single video at speed 1.5 and the job is cancelled while it is \<open>processing\<close>: the handler
  sets the status to \<open>cancelled\<close>, \<open>adjustAudioSpeed\<close> fails because its context is
  cancelled, and the task sets the status to \<open>error\<close>. In a playlist, a request that arrives during the
  last file leaves \<open>cancelled\<close> only until the task sets \<open>completed\<close>. A request that
  arrives between the task's first test of its context and its first write is followed by
  \<open>downloading\<close>. The lists are the job's status after each event of the run.
\<close>

theorem cancelled_status_overwritten_by_task:
  "downloadHandler (Json (Some video_url) (Some (3/2))) ''job-1'' 7 empty_world
     = (Ok_download_id ''job-1'', new_world video_url (3/2), Some (new_task video_url (3/2)))
   \<and> map (status_of ''job-1'')
        (states (new_task video_url (3/2)) cancel_while_transforming
           (submitted (new_world video_url (3/2))))
     = [''queued'', ''queued'', ''downloading'', ''downloading'', ''downloading'',
        ''downloading'', ''downloading'', ''downloading'', ''processing'', ''cancelled'',
        ''cancelled'', ''error'']
   \<and> map (status_of ''job-1'')
        (states (new_task playlist_url (3/2)) cancel_during_last_file
           (submitted (new_world playlist_url (3/2))))
     = [''queued'', ''queued'', ''downloading'', ''downloading'', ''downloading'',
        ''downloading'', ''downloading'', ''processing'', ''processing'', ''processing'',
        ''cancelled'', ''cancelled'', ''cancelled'', ''completed'']
   \<and> map (status_of ''job-1'')
        (states (new_task video_url (3/2)) cancel_right_after_start
           (submitted (new_world video_url (3/2))))
     = [''queued'', ''queued'', ''cancelled'', ''downloading'']"
proof -
  have "downloadHandler (Json (Some video_url) (Some (3/2))) ''job-1'' 7 empty_world
     = (Ok_download_id ''job-1'', new_world video_url (3/2), Some (new_task video_url (3/2)))"
    by (simp add: downloadHandler_def Let_def empty_world_def new_world_def new_job_def
          new_task_def video_url_def)
  moreover have "map (status_of ''job-1'')
        (states (new_task video_url (3/2)) cancel_while_transforming
           (submitted (new_world video_url (3/2))))
     = [''queued'', ''queued'', ''downloading'', ''downloading'', ''downloading'',
        ''downloading'', ''downloading'', ''downloading'', ''processing'', ''cancelled'',
        ''cancelled'', ''error'']"
    by code_simp
  moreover have "map (status_of ''job-1'')
        (states (new_task playlist_url (3/2)) cancel_during_last_file
           (submitted (new_world playlist_url (3/2))))
     = [''queued'', ''queued'', ''downloading'', ''downloading'', ''downloading'',
        ''downloading'', ''downloading'', ''processing'', ''processing'', ''processing'',
        ''cancelled'', ''cancelled'', ''cancelled'', ''completed'']"
    by code_simp
  moreover have "map (status_of ''job-1'')
        (states (new_task video_url (3/2)) cancel_right_after_start
           (submitted (new_world video_url (3/2))))
     = [''queued'', ''queued'', ''cancelled'', ''downloading'']"
    by code_simp
  ultimately show ?thesis by blast
qed

section \<open>Properties of the playlist workflow\<close>













end
